theory Spec2Isabelle
  imports Main "HOL-Library.Sublist" "HOL-Library.Word"
begin

section \<open>Python values\<close>

text \<open>
  A Python \<^verbatim>\<open>str\<close> is a sequence of Unicode code points, so it is modelled as a list of
  natural numbers: \<^verbatim>\<open>len\<close> is \<open>length\<close>, \<^verbatim>\<open>s[:n]\<close> is \<open>take n s\<close> and \<^verbatim>\<open>+\<close> is \<open>@\<close>.
  ASCII literals of the source are written through \<open>ascii\<close>; the Chinese text of the
  prompts is given by its code points.
\<close>

type_synonym pystr = "nat list"

definition ascii :: "string \<Rightarrow> pystr" where
  "ascii s = map of_char s"

text \<open>
  The values that \<^verbatim>\<open>json.loads\<close> returns and \<^verbatim>\<open>json.dumps\<close>/\<^verbatim>\<open>jsonify\<close> accept. A float is
  carried as its IEEE-754 bit pattern: the program never computes with one. A dict is
  an association list in insertion order.
\<close>

datatype pyval =
    PNone
  | PBool bool
  | PInt int
  | PFloat "64 word"
  | PStr pystr
  | PList "pyval list"
  | PDict "(pystr \<times> pyval) list"

datatype exn = ConnectionError | JSONDecodeError | AttributeError | UnicodeEncodeError

text \<open>
  The standard-library functions the program calls are parameters of the model:
  \<open>md5_hexdigest s\<close> stands for \<^verbatim>\<open>hashlib.md5(s.encode('utf-8')).hexdigest()\<close> on a
  string that \<^verbatim>\<open>encode\<close> accepts, \<open>json_loads\<close> for \<^verbatim>\<open>json.loads\<close> (\<open>Inl\<close> when it raises)
  and \<open>json_dumps\<close> for \<^verbatim>\<open>json.dumps\<close>.
\<close>

record lib =
  md5_hexdigest :: "pystr \<Rightarrow> pystr"
  json_loads :: "pystr \<Rightarrow> exn + pyval"
  json_dumps :: "pyval \<Rightarrow> pystr"

section \<open>Text normalisation (lines 40-42)\<close>

text \<open>
  The characters that \<^verbatim>\<open>\s\<close> matches in a \<^verbatim>\<open>str\<close> pattern and that \<^verbatim>\<open>str.strip()\<close> removes:
  CPython decides both with the same test (\<^verbatim>\<open>Py_UNICODE_ISSPACE\<close>).
\<close>

definition is_space :: "nat \<Rightarrow> bool" where
  "is_space c \<longleftrightarrow>
     (9 \<le> c \<and> c \<le> 13) \<or> (28 \<le> c \<and> c \<le> 32) \<or> c = 133 \<or> c = 160 \<or> c = 5760 \<or>
     (8192 \<le> c \<and> c \<le> 8202) \<or> c = 8232 \<or> c = 8233 \<or> c = 8239 \<or> c = 8287 \<or> c = 12288"

text \<open>
  \<^verbatim>\<open>re.sub(r'\s+', ' ', text)\<close>: scanning from the left, a greedy match of \<^verbatim>\<open>\s+\<close> that
  starts at a whitespace character takes the whole run and is replaced by one space;
  any other character is copied.
\<close>

function re_sub_spaces :: "pystr \<Rightarrow> pystr" where
  "re_sub_spaces [] = []"
| "re_sub_spaces (c # cs) =
     (if is_space c then 32 # re_sub_spaces (dropWhile is_space cs)
      else c # re_sub_spaces cs)"
  by pat_completeness auto
termination
  by (relation "measure length") (auto simp: less_Suc_eq_le length_dropWhile_le)

text \<open>\<^verbatim>\<open>str.strip()\<close>: leading and trailing whitespace removed.\<close>

definition lstrip :: "pystr \<Rightarrow> pystr" where
  "lstrip s = dropWhile is_space s"

definition rstrip :: "pystr \<Rightarrow> pystr" where
  "rstrip s = rev (dropWhile is_space (rev s))"

definition strip :: "pystr \<Rightarrow> pystr" where
  "strip s = rstrip (lstrip s)"

text \<open>Line 41, \<^verbatim>\<open>re.sub(r'\s+', ' ', text).strip()\<close>: the spec's TextNormalizer.\<close>

definition normalize :: "pystr \<Rightarrow> pystr" where
  "normalize text = strip (re_sub_spaces text)"

text \<open>
  The spec's words for the same function: the maximal runs of non-whitespace
  characters, in order, joined by single spaces.
\<close>

function tokens :: "pystr \<Rightarrow> pystr list" where
  "tokens s =
     (case dropWhile is_space s of
        [] \<Rightarrow> []
      | c # cs \<Rightarrow> takeWhile (\<lambda>x. \<not> is_space x) (c # cs)
                 # tokens (dropWhile (\<lambda>x. \<not> is_space x) (c # cs)))"
  by pat_completeness auto
termination
proof (relation "measure length", goal_cases)
  case 1
  show ?case by simp
next
  case (2 s c cs)
  have ns: "\<not> is_space c"
    using 2 hd_dropWhile [of is_space s] by (metis list.sel(1) list.simps(3))
  have "length (dropWhile (\<lambda>x. \<not> is_space x) (c # cs)) \<le> length cs"
    using ns by (simp add: length_dropWhile_le)
  also have "\<dots> < length (dropWhile is_space s)"
    using 2 by simp
  also have "\<dots> \<le> length s"
    by (rule length_dropWhile_le)
  finally show ?case by simp
qed

declare tokens.simps [simp del]

fun join_space :: "pystr list \<Rightarrow> pystr" where
  "join_space [] = []"
| "join_space [t] = t"
| "join_space (t # u # ts) = t @ 32 # join_space (u # ts)"

definition normalize_spec :: "pystr \<Rightarrow> pystr" where
  "normalize_spec s = join_space (tokens s)"

section \<open>PDF text extraction (lines 32-42)\<close>

text \<open>
  \<^verbatim>\<open>pdfplumber\<close> is outside the program. An uploaded stream either cannot be opened (an
  exception with a message) or is a list of pages; \<^verbatim>\<open>page.extract_text()\<close> on a page
  raises, or returns \<^verbatim>\<open>None\<close> or a string.
\<close>

datatype pdf_error = PdfError (message: pystr)

datatype page = Page (extract_text: "pdf_error + pystr option")

type_synonym file_stream = "pdf_error + page list"

text \<open>The loop of lines 36-39, with \<open>text\<close> as its accumulator.\<close>

fun page_loop :: "page list \<Rightarrow> pystr \<Rightarrow> pdf_error + pystr" where
  "page_loop [] text = Inr text"
| "page_loop (p # ps) text =
     (case extract_text p of
        Inl e \<Rightarrow> Inl e
      | Inr page_text \<Rightarrow>
          (case page_text of
             None \<Rightarrow> page_loop ps text
           | Some t \<Rightarrow> if t \<noteq> [] then page_loop ps (text @ t @ [10]) else page_loop ps text))"

definition extract_text_from_pdf :: "file_stream \<Rightarrow> pdf_error + pystr" where
  "extract_text_from_pdf file_stream =
     (case file_stream of
        Inl e \<Rightarrow> Inl e
      | Inr pages \<Rightarrow>
          (case page_loop pages [] of
             Inl e \<Rightarrow> Inl e
           | Inr text \<Rightarrow> Inr (normalize text)))"

section \<open>Cache key (lines 44-47)\<close>

text \<open>
  \<^verbatim>\<open>raw.encode('utf-8')\<close> raises \<^verbatim>\<open>UnicodeEncodeError\<close> when the string holds a surrogate
  code point (U+D800 to U+DFFF), and encodes every other string.
\<close>

definition surrogate :: "nat \<Rightarrow> bool" where
  "surrogate c \<longleftrightarrow> 55296 \<le> c \<and> c \<le> 57343"

definition get_cache_key :: "'x lib_scheme \<Rightarrow> pystr \<Rightarrow> pystr \<Rightarrow> exn + pystr" where
  "get_cache_key L text jd_text =
     (let raw = text @ jd_text in
      if list_ex surrogate raw then Inl UnicodeEncodeError
      else Inr (md5_hexdigest L raw))"

section \<open>The cache store (lines 22-28)\<close>

text \<open>
  The Redis server's data: each key holds a value and the time (in seconds) at which it
  expires. \<^verbatim>\<open>GET\<close> answers with the value of a key that has not expired; \<^verbatim>\<open>SETEX\<close>
  stores a value that expires \<open>ttl\<close> seconds later. A command sent while the server
  cannot be reached raises \<^verbatim>\<open>redis.exceptions.ConnectionError\<close>.
\<close>

type_synonym redis = "pystr \<Rightarrow> (pystr \<times> nat) option"

definition redis_get :: "bool \<Rightarrow> nat \<Rightarrow> redis \<Rightarrow> pystr \<Rightarrow> exn + pystr option" where
  "redis_get reachable now r k =
     (if \<not> reachable then Inl ConnectionError
      else case r k of
             None \<Rightarrow> Inr None
           | Some (v, expiry) \<Rightarrow> if now < expiry then Inr (Some v) else Inr None)"

definition redis_setex :: "bool \<Rightarrow> nat \<Rightarrow> redis \<Rightarrow> pystr \<Rightarrow> nat \<Rightarrow> pystr \<Rightarrow> exn + redis" where
  "redis_setex reachable now r k ttl v =
     (if \<not> reachable then Inl ConnectionError
      else Inr (r(k \<mapsto> (v, now + ttl))))"

text \<open>
  Lines 23-28. \<^verbatim>\<open>redis.Redis(...)\<close> builds a client without opening a connection (the
  first command does), so for a configured host the client is always created, whether
  or not the server answers.
\<close>

definition init_r_client :: "pystr \<Rightarrow> redis \<Rightarrow> redis option" where
  "init_r_client REDIS_HOST server =
     (if REDIS_HOST \<noteq> [] \<and> REDIS_HOST \<noteq> ascii ''None'' then Some server else None)"

section \<open>The completion service (lines 49-64)\<close>

text \<open>
  What \<^verbatim>\<open>dashscope.Generation.call\<close> does with a prompt: a response with status OK and
  a message content, a response with another status, or an exception.
\<close>

datatype generation = StatusOK pystr | StatusNotOK | Raises

text \<open>
  What lies outside the program while one request is handled: the time, the completion
  service, and whether the Redis server answers the \<^verbatim>\<open>GET\<close> and the \<^verbatim>\<open>SETEX\<close>.
\<close>

record env =
  now :: nat
  generation_call :: "pystr \<Rightarrow> generation"
  get_reachable :: bool
  setex_reachable :: bool

text \<open>
  What persists between requests: the module's \<open>r_client\<close> (with the server's data) and,
  as a trace, the prompts sent to the completion service so far.
\<close>

record world =
  r_client :: "redis option"
  calls :: "pystr list"

definition call_ai_service :: "'e env_scheme \<Rightarrow> pystr \<Rightarrow> world \<Rightarrow> pystr option \<times> world" where
  "call_ai_service E prompt w =
     (let w' = w\<lparr>calls := calls w @ [prompt]\<rparr> in
      case generation_call E prompt of
        StatusOK content \<Rightarrow> (Some content, w')
      | StatusNotOK \<Rightarrow> (None, w')
      | Raises \<Rightarrow> (None, w'))"

section \<open>Prompts (lines 95-106 and 121-131)\<close>

definition extract_prompt_head :: "pystr" where
  "extract_prompt_head =
    [10, 32, 32, 32, 32, 35831, 20174, 20197, 19979, 31616, 21382, 25991, 26412, 20013,
     25552, 21462, 20851, 38190, 20449, 24687, 12290, 10, 32, 32, 32, 32, 31616, 21382,
     20869, 23481, 58, 32]"

definition extract_prompt_tail :: "pystr" where
  "extract_prompt_tail =
    [46, 46, 46, 32, 40, 25130, 26029, 20197, 38450, 36807, 38271, 41, 10, 32,
     32, 32, 32, 10, 32, 32, 32, 32, 35201, 27714, 36755, 20986, 20026, 20005,
     26684, 30340, 32, 74, 83, 79, 78, 32, 26684, 24335, 65292, 19981, 21253, 21547,
     32, 77, 97, 114, 107, 100, 111, 119, 110, 32, 26631, 35760, 12290, 21253,
     21547, 20197, 19979, 23383, 27573, 65306, 10, 32, 32, 32, 32, 45, 32, 110,
     97, 109, 101, 32, 40, 22995, 21517, 41, 10, 32, 32, 32, 32, 45,
     32, 112, 104, 111, 110, 101, 32, 40, 30005, 35805, 41, 10, 32, 32,
     32, 32, 45, 32, 101, 109, 97, 105, 108, 32, 40, 37038, 31665, 41,
     10, 32, 32, 32, 32, 45, 32, 101, 100, 117, 99, 97, 116, 105,
     111, 110, 32, 40, 23398, 21382, 31616, 36848, 41, 10, 32, 32, 32, 32,
     45, 32, 101, 120, 112, 101, 114, 105, 101, 110, 99, 101, 95, 121,
     101, 97, 114, 115, 32, 40, 24037, 20316, 24180, 38480, 65292, 25968, 23383, 41,
     10, 32, 32, 32, 32, 45, 32, 115, 107, 105, 108, 108, 115, 32,
     40, 25216, 33021, 21015, 34920, 41, 10, 32, 32, 32, 32]"

definition extract_prompt :: "pystr \<Rightarrow> pystr" where
  "extract_prompt resume_text =
     extract_prompt_head @ take 2500 resume_text @ extract_prompt_tail"

definition match_prompt_head :: "pystr" where
  "match_prompt_head =
    [10, 32, 32, 32, 32, 32, 32, 32, 32, 25105, 26159, 25307, 32856, 23448,
     12290, 35831, 23545, 27604, 31616, 21382, 21644, 23703, 20301, 25551, 36848, 12290, 10, 32,
     32, 32, 32, 32, 32, 32, 32, 31616, 21382, 20869, 23481, 58, 32]"

definition match_prompt_mid :: "pystr" where
  "match_prompt_mid =
    [10, 32, 32, 32, 32, 32, 32, 32, 32, 23703, 20301, 25551, 36848, 58,
     32]"

definition match_prompt_tail :: "pystr" where
  "match_prompt_tail =
    [10, 32, 32, 32, 32, 32, 32, 32, 32, 10, 32, 32, 32, 32,
     32, 32, 32, 32, 35831, 32473, 20986, 65306, 10, 32, 32, 32, 32, 32,
     32, 32, 32, 49, 46, 32, 115, 99, 111, 114, 101, 32, 40, 48,
     45, 49, 48, 48, 30340, 25972, 25968, 35780, 20998, 41, 10, 32, 32, 32,
     32, 32, 32, 32, 32, 50, 46, 32, 97, 110, 97, 108, 121, 115,
     105, 115, 32, 40, 31616, 30701, 30340, 21305, 37197, 20998, 26512, 65292, 19981, 36229,
     36807, 49, 48, 48, 23383, 41, 10, 32, 32, 32, 32, 32, 32, 32,
     32, 10, 32, 32, 32, 32, 32, 32, 32, 32, 36755, 20986, 20026, 20005,
     26684, 30340, 32, 74, 83, 79, 78, 32, 26684, 24335, 12290, 10, 32, 32,
     32, 32, 32, 32, 32, 32]"

definition match_prompt :: "pystr \<Rightarrow> pystr \<Rightarrow> pystr" where
  "match_prompt resume_text jd_text =
     match_prompt_head @ take 2000 resume_text @ match_prompt_mid
       @ take 1000 jd_text @ match_prompt_tail"

section \<open>Parsing the model's output (lines 110-116 and 132-137)\<close>

text \<open>
  \<^verbatim>\<open>str.replace(old, new)\<close>: every occurrence of \<open>old\<close>, found from the left without
  overlap, is replaced.
\<close>

function replace :: "pystr \<Rightarrow> pystr \<Rightarrow> pystr \<Rightarrow> pystr" where
  "replace old new s =
     (if old = [] then new @ concat (map (\<lambda>c. c # new) s)
      else case s of
             [] \<Rightarrow> []
           | c # cs \<Rightarrow>
               if prefix old s then new @ replace old new (drop (length old) s)
               else c # replace old new cs)"
  by pat_completeness auto
termination
  by (relation "measure (\<lambda>(old, new, s). length s)") auto

declare replace.simps [simp del]

text \<open>
  Lines 113 and 134. The argument is \<^verbatim>\<open>None\<close> when the completion call failed, and
  \<^verbatim>\<open>None.replace\<close> raises \<^verbatim>\<open>AttributeError\<close>.
\<close>

definition clean_json_str :: "pystr option \<Rightarrow> exn + pystr" where
  "clean_json_str s =
     (case s of
        None \<Rightarrow> Inl AttributeError
      | Some t \<Rightarrow> Inr (replace (ascii ''```'') [] (replace (ascii ''```json'') [] t)))"

text \<open>The two \<^verbatim>\<open>try\<close> blocks: a bare \<^verbatim>\<open>except\<close> turns every exception into the fallback.\<close>

definition extracted_info_of :: "'x lib_scheme \<Rightarrow> pystr option \<Rightarrow> pyval" where
  "extracted_info_of L extracted_info_str =
     (case (case clean_json_str extracted_info_str of
              Inl e \<Rightarrow> Inl e
            | Inr clean \<Rightarrow> json_loads L clean) of
        Inr extracted_info \<Rightarrow> extracted_info
      | Inl e \<Rightarrow>
          PDict [(ascii ''raw_text'',
                  (case extracted_info_str of None \<Rightarrow> PNone | Some t \<Rightarrow> PStr t))])"

definition match_result_of :: "'x lib_scheme \<Rightarrow> pystr option \<Rightarrow> pyval" where
  "match_result_of L match_res_str =
     (case (case clean_json_str match_res_str of
              Inl e \<Rightarrow> Inl e
            | Inr clean \<Rightarrow> json_loads L clean) of
        Inr match_result \<Rightarrow> match_result
      | Inl e \<Rightarrow>
          PDict [(ascii ''score'', PInt 0),
                 (ascii ''analysis'', PStr (ascii ''AI Parsing Error''))])"

section \<open>The request handler (lines 68-150)\<close>

record request =
  files_resume :: "file_stream option"
  form_jd_text :: "pystr option"

text \<open>
  A handler returns a response, or raises: an exception that leaves the handler is
  answered by Flask with its own 500 page.
\<close>

datatype http = Response (status: nat) (body: pyval)

text \<open>Lines 94-150: what the handler does when the cache did not answer.\<close>

definition analyze_miss ::
  "'x lib_scheme \<Rightarrow> 'e env_scheme \<Rightarrow> pystr \<Rightarrow> pystr \<Rightarrow> pystr \<Rightarrow> world \<Rightarrow> (exn + http) \<times> world" where
  "analyze_miss L E resume_text jd_text cache_key w =
     (let (extracted_info_str, w1) = call_ai_service E (extract_prompt resume_text) w;
          extracted_info = extracted_info_of L extracted_info_str;
          (match_result, w2) =
            (if jd_text \<noteq> [] then
               let (match_res_str, w') =
                     call_ai_service E (match_prompt resume_text jd_text) w1
               in (match_result_of L match_res_str, w')
             else (PDict [], w1));
          response_data =
            PDict [(ascii ''resume_text_preview'', PStr (take 200 resume_text)),
                   (ascii ''extracted_info'', extracted_info),
                   (ascii ''match_result'', match_result)]
      in case r_client w2 of
           None \<Rightarrow> (Inr (Response 200 response_data), w2)
         | Some r \<Rightarrow>
             (case redis_setex (setex_reachable E) (now E) r cache_key 3600
                     (json_dumps L response_data) of
                Inl e \<Rightarrow> (Inl e, w2)
              | Inr r' \<Rightarrow> (Inr (Response 200 response_data), w2\<lparr>r_client := Some r'\<rparr>)))"

definition analyze_resume ::
  "'x lib_scheme \<Rightarrow> 'e env_scheme \<Rightarrow> request \<Rightarrow> world \<Rightarrow> (exn + http) \<times> world" where
  "analyze_resume L E req w =
     (case files_resume req of
        None \<Rightarrow>
          (Inr (Response 400
                  (PDict [(ascii ''error'', PStr (ascii ''No resume file provided''))])), w)
      | Some file \<Rightarrow>
          (let jd_text = (case form_jd_text req of None \<Rightarrow> [] | Some t \<Rightarrow> t) in
           (case extract_text_from_pdf file of
              Inl e \<Rightarrow>
                (Inr (Response 500
                        (PDict [(ascii ''error'',
                                 PStr (ascii ''Failed to parse PDF: '' @ message e))])), w)
            | Inr resume_text \<Rightarrow>
                (case get_cache_key L resume_text jd_text of
                   Inl e \<Rightarrow> (Inl e, w)
                 | Inr cache_key \<Rightarrow>
                     (case r_client w of
                        None \<Rightarrow> analyze_miss L E resume_text jd_text cache_key w
                      | Some r \<Rightarrow>
                          (case redis_get (get_reachable E) (now E) r cache_key of
                             Inl e \<Rightarrow> (Inl e, w)
                           | Inr cached_data \<Rightarrow>
                               (case cached_data of
                                  None \<Rightarrow> analyze_miss L E resume_text jd_text cache_key w
                                | Some d \<Rightarrow>
                                    (if d \<noteq> [] then
                                       (case json_loads L d of
                                          Inl e \<Rightarrow> (Inl e, w)
                                        | Inr v \<Rightarrow> (Inr (Response 200 v), w))
                                     else analyze_miss L E resume_text jd_text cache_key
                                            w))))))))"

text \<open>
  The condition under which a request is answered by the model and not by the cache,
  and no cache command fails: the cache is disabled, or the server answers both commands
  and holds no live, non-empty value under the key.
\<close>

definition cache_misses :: "'e env_scheme \<Rightarrow> world \<Rightarrow> pystr \<Rightarrow> bool" where
  "cache_misses E w cache_key =
     (case r_client w of
        None \<Rightarrow> True
      | Some r \<Rightarrow>
          get_reachable E \<and> setex_reachable E \<and>
          (case r cache_key of
             None \<Rightarrow> True
           | Some (d, expiry) \<Rightarrow> expiry \<le> now E \<or> d = []))"

section \<open>Sample inputs\<close>

text \<open>
  Concrete inputs for the examples below. The library stand-in hashes by the identity
  and knows \<^verbatim>\<open>json\<close> on the few texts the examples use, where it agrees with Python;
  what it returns elsewhere is a placeholder that no example reads.
\<close>

definition sample_response :: pyval where
  "sample_response =
     PDict [(ascii ''resume_text_preview'', PStr (ascii ''John Doe'')),
            (ascii ''extracted_info'', PDict [(ascii ''raw_text'', PNone)]),
            (ascii ''match_result'', PDict [])]"

definition sample_response_json :: pystr where
  "sample_response_json =
     ascii ''{\"resume_text_preview\": \"John Doe\", \"extracted_info\": {\"raw_text\": null}, \"match_result\": {}}''"

definition sample_lib :: lib where
  "sample_lib =
     \<lparr>md5_hexdigest = (\<lambda>raw. raw),
      json_loads = (\<lambda>s. if s = sample_response_json then Inr sample_response
                         else if s = ascii ''{}'' then Inr (PDict [])
                         else if s = ascii ''42'' then Inr (PInt 42)
                         else Inl JSONDecodeError),
      json_dumps = (\<lambda>v. if v = sample_response then sample_response_json
                         else ascii ''null'')\<rparr>"

definition sample_env :: env where
  "sample_env =
     \<lparr>now = 100, generation_call = (\<lambda>prompt. StatusNotOK),
      get_reachable = True, setex_reachable = True\<rparr>"

definition sample_request :: request where
  "sample_request =
     \<lparr>files_resume = Some (Inr [Page (Inr (Some (ascii ''John  Doe'')))]),
      form_jd_text = None\<rparr>"

definition sample_request_jd :: request where
  "sample_request_jd =
     \<lparr>files_resume = Some (Inr [Page (Inr (Some (ascii ''John  Doe'')))]),
      form_jd_text = Some (ascii ''Go'')\<rparr>"

section \<open>The cache key\<close>

lemma get_cache_key_concat:
  "text1 @ jd1 = text2 @ jd2 \<Longrightarrow> get_cache_key L text1 jd1 = get_cache_key L text2 jd2"
  by (simp add: get_cache_key_def)

lemma get_cache_key_sample:
  "get_cache_key sample_lib (ascii ''John Doe'') [] = Inr (ascii ''John Doe'')"
  "get_cache_key sample_lib (ascii ''John Doe'') (ascii ''Go'') = Inr (ascii ''John DoeGo'')"
  "get_cache_key sample_lib (ascii ''John'') (ascii '' Doe'') = Inr (ascii ''John Doe'')"
  "get_cache_key sample_lib [] (ascii ''John Doe'') = Inr (ascii ''John Doe'')"
  by (simp_all add: get_cache_key_def sample_lib_def surrogate_def ascii_def)

text \<open>
  Claim C1. The key is a hash of the concatenation \<open>text + jd_text\<close> alone, so two
  different pairs with the same concatenation have the same key whatever the hash
  function is: the document \<open>a\<close> with the job description \<open>b\<close>, and the document \<open>ab\<close>
  with no job description. Both keys are derived: neither call raises.
\<close>

theorem get_cache_key_ambiguous:
  "(ascii ''a'', ascii ''b'') \<noteq> (ascii ''ab'', [])
   \<and> get_cache_key L (ascii ''a'') (ascii ''b'') = get_cache_key L (ascii ''ab'') []
   \<and> get_cache_key L (ascii ''ab'') [] = Inr (md5_hexdigest L (ascii ''ab''))"
  by (simp add: get_cache_key_def surrogate_def ascii_def)

section \<open>Normalisation\<close>

lemma is_space_32: "is_space 32"
  by (simp add: is_space_def)

lemma tokens_Nil: "tokens [] = []"
  by (subst tokens.simps) simp

lemma tokens_space: "is_space c \<Longrightarrow> tokens (c # cs) = tokens cs"
  by (subst tokens.simps, subst (2) tokens.simps) simp

lemma tokens_nonspace:
  "\<not> is_space c \<Longrightarrow>
   tokens (c # cs) = (c # takeWhile (\<lambda>x. \<not> is_space x) cs) # tokens (dropWhile (\<lambda>x. \<not> is_space x) cs)"
  by (subst tokens.simps) simp

lemma tokens_lstrip: "tokens (lstrip s) = tokens s"
  unfolding lstrip_def by (induction s) (simp_all add: tokens_space)

lemma tokens_wf:
  "t \<in> set (tokens s) \<Longrightarrow> t \<noteq> [] \<and> (\<forall>c\<in>set t. \<not> is_space c)"
proof (induction s arbitrary: t rule: length_induct)
  case (1 s)
  show ?case
  proof (cases s)
    case Nil
    with 1 show ?thesis by (simp add: tokens_Nil)
  next
    case (Cons c cs)
    show ?thesis
    proof (cases "is_space c")
      case True
      with 1(2) Cons have "t \<in> set (tokens cs)" by (simp add: tokens_space)
      moreover have "length cs < length s" using Cons by simp
      ultimately show ?thesis using 1(1) by blast
    next
      case False
      have len: "length (dropWhile (\<lambda>x. \<not> is_space x) cs) < length s"
        using Cons by (simp add: less_Suc_eq_le length_dropWhile_le)
      from 1(2) Cons False
      consider "t = c # takeWhile (\<lambda>x. \<not> is_space x) cs"
        | "t \<in> set (tokens (dropWhile (\<lambda>x. \<not> is_space x) cs))"
        by (auto simp: tokens_nonspace)
      then show ?thesis
      proof cases
        case 1
        then show ?thesis using False by (auto dest: set_takeWhileD)
      next
        case 2
        with 1(1) len show ?thesis by blast
      qed
    qed
  qed
qed

lemma tokens_single:
  assumes "t \<noteq> []" and "\<forall>c\<in>set t. \<not> is_space c"
  shows "tokens t = [t]"
proof (cases t)
  case Nil
  then show ?thesis using assms by simp
next
  case (Cons a list)
  with assms have ns: "\<not> is_space a" and all: "\<forall>c\<in>set list. \<not> is_space c"
    by simp_all
  from all have dw: "dropWhile (\<lambda>x. \<not> is_space x) list = []"
    and tw: "takeWhile (\<lambda>x. \<not> is_space x) list = list"
    by simp_all
  show ?thesis
    unfolding Cons tokens_nonspace [OF ns] dw tw tokens_Nil ..
qed

lemma tokens_append_space:
  "t \<noteq> [] \<Longrightarrow> \<forall>c\<in>set t. \<not> is_space c \<Longrightarrow> is_space d \<Longrightarrow>
   tokens (t @ d # rest) = t # tokens rest"
  by (cases t) (simp_all add: tokens_nonspace tokens_space)

lemma tokens_join_space:
  "\<forall>t\<in>set ts. t \<noteq> [] \<and> (\<forall>c\<in>set t. \<not> is_space c) \<Longrightarrow> tokens (join_space ts) = ts"
  by (induction ts rule: join_space.induct)
     (simp_all add: tokens_single tokens_append_space is_space_32 tokens_Nil)

lemma tokens_normalize_spec: "tokens (normalize_spec s) = tokens s"
  unfolding normalize_spec_def by (rule tokens_join_space) (use tokens_wf in blast)


lemma re_sub_spaces_nonspace_append:
  "\<forall>x\<in>set xs. \<not> is_space x \<Longrightarrow> re_sub_spaces (xs @ ys) = xs @ re_sub_spaces ys"
  by (induction xs) simp_all

lemma lstrip_headed: "lstrip s = [] \<or> \<not> is_space (hd (lstrip s))"
  unfolding lstrip_def using hd_dropWhile [of is_space s] by blast

lemma lstrip_id: "s = [] \<or> \<not> is_space (hd s) \<Longrightarrow> lstrip s = s"
  unfolding lstrip_def by (cases s) simp_all

lemma re_sub_spaces_headed:
  "s = [] \<or> \<not> is_space (hd s) \<Longrightarrow>
   re_sub_spaces s = [] \<or> \<not> is_space (hd (re_sub_spaces s))"
  by (cases s) simp_all

lemma lstrip_re_sub_spaces: "lstrip (re_sub_spaces s) = re_sub_spaces (lstrip s)"
proof (cases s)
  case Nil
  then show ?thesis by (simp add: lstrip_def)
next
  case (Cons c cs)
  show ?thesis
  proof (cases "is_space c")
    case True
    have "lstrip (re_sub_spaces s) = lstrip (re_sub_spaces (lstrip cs))"
      using Cons True by (simp add: lstrip_def is_space_32)
    also have "\<dots> = re_sub_spaces (lstrip cs)"
      by (rule lstrip_id) (rule re_sub_spaces_headed, rule lstrip_headed)
    also have "lstrip cs = lstrip s"
      using Cons True by (simp add: lstrip_def)
    finally show ?thesis .
  next
    case False
    with Cons show ?thesis by (simp add: lstrip_def)
  qed
qed

lemma rstrip_append:
  "rstrip (xs @ ys) = (if \<forall>y\<in>set ys. is_space y then rstrip xs else xs @ rstrip ys)"
  by (simp add: rstrip_def dropWhile_append)

lemma rstrip_nonspace: "\<forall>x\<in>set xs. \<not> is_space x \<Longrightarrow> rstrip xs = xs"
  by (cases "rev xs") (simp_all add: rstrip_def)

lemma rstrip_Nil: "rstrip [] = []"
  by (simp add: rstrip_def)

lemma join_space_Cons:
  "ts \<noteq> [] \<Longrightarrow> join_space (t # ts) = t @ 32 # join_space ts"
  by (cases ts) simp_all

lemma rstrip_re_sub_spaces:
  "u = [] \<or> \<not> is_space (hd u) \<Longrightarrow> rstrip (re_sub_spaces u) = join_space (tokens u)"
proof (induction u rule: length_induct)
  case (1 u)
  show ?case
  proof (cases u)
    case Nil
    then show ?thesis by (simp add: rstrip_Nil tokens_Nil)
  next
    case (Cons c cs)
    with 1(2) have ns: "\<not> is_space c" by simp
    define w where "w = c # takeWhile (\<lambda>x. \<not> is_space x) cs"
    define r where "r = dropWhile (\<lambda>x. \<not> is_space x) cs"
    have u: "u = w @ r" by (simp add: Cons w_def r_def)
    have w: "\<forall>x\<in>set w. \<not> is_space x" "w \<noteq> []"
      using ns by (auto simp: w_def dest: set_takeWhileD)
    have tok: "tokens u = w # tokens r"
      unfolding Cons w_def r_def by (rule tokens_nonspace [OF ns])
    have sub: "re_sub_spaces u = w @ re_sub_spaces r"
      unfolding u by (rule re_sub_spaces_nonspace_append) (rule w)
    show ?thesis
    proof (cases r)
      case Nil
      then show ?thesis
        by (simp add: tok sub tokens_Nil rstrip_nonspace w)
    next
      case (Cons d ds)
      have sd: "is_space d"
      proof -
        have "dropWhile (\<lambda>x. \<not> is_space x) cs \<noteq> []"
          using Cons by (simp add: r_def)
        from hd_dropWhile [OF this] show ?thesis
          using Cons by (simp add: r_def)
      qed
      define r' where "r' = lstrip ds"
      have r': "r' = [] \<or> \<not> is_space (hd r')"
        unfolding r'_def by (rule lstrip_headed)
      have len: "length r' < length u"
      proof -
        have "length r' \<le> length ds" by (simp add: r'_def lstrip_def length_dropWhile_le)
        also have "\<dots> < length r" by (simp add: Cons)
        also have "\<dots> \<le> length u" by (simp add: u)
        finally show ?thesis .
      qed
      have IH: "rstrip (re_sub_spaces r') = join_space (tokens r')"
        using 1(1) len r' by blast
      have subr: "re_sub_spaces r = 32 # re_sub_spaces r'"
        using sd by (simp add: Cons r'_def lstrip_def)
      have tokr: "tokens r = tokens r'"
        unfolding Cons r'_def by (simp add: tokens_space [OF sd] tokens_lstrip)
      show ?thesis
      proof (cases r')
        case Nil
        have "rstrip (w @ [32]) = w"
          by (simp add: rstrip_append is_space_32 rstrip_nonspace w)
        then show ?thesis
          by (simp add: tok sub subr tokr Nil tokens_Nil)
      next
        case (Cons e es)
        with r' have ne: "\<not> is_space e" by simp
        have hd_sub: "re_sub_spaces r' = e # re_sub_spaces es"
          using ne by (simp add: Cons)
        have nall: "\<not> (\<forall>y\<in>set (re_sub_spaces r'). is_space y)"
          using ne by (simp add: hd_sub)
        have tne: "tokens r' \<noteq> []"
          using ne by (simp add: Cons tokens_nonspace)
        have "rstrip (w @ 32 # re_sub_spaces r') = w @ rstrip ([32] @ re_sub_spaces r')"
          using nall by (auto simp: rstrip_append)
        also have "rstrip ([32] @ re_sub_spaces r') = 32 # rstrip (re_sub_spaces r')"
          using nall by (subst rstrip_append) auto
        finally have "rstrip (re_sub_spaces u) = w @ 32 # join_space (tokens r')"
          by (simp add: sub subr IH)
        then show ?thesis
          by (simp add: tok tokr join_space_Cons [OF tne])
      qed
    qed
  qed
qed

lemma normalize_eq_spec: "normalize s = normalize_spec s"
proof -
  have "normalize s = rstrip (re_sub_spaces (lstrip s))"
    by (simp add: normalize_def strip_def lstrip_re_sub_spaces)
  also have "\<dots> = join_space (tokens (lstrip s))"
    by (rule rstrip_re_sub_spaces) (rule lstrip_headed)
  finally show ?thesis
    by (simp add: normalize_spec_def tokens_lstrip)
qed

lemma normalize_idem: "normalize (normalize s) = normalize s"
  by (simp add: normalize_eq_spec normalize_spec_def tokens_normalize_spec [unfolded normalize_spec_def])

lemma normalize_example:
  "normalize (ascii ''  John   Doe'' @ [9, 10, 12288] @ ascii ''x '') = ascii ''John Doe x''"
  by (simp add: normalize_def strip_def lstrip_def rstrip_def ascii_def is_space_def)

text \<open>
  Claim C6. For every string, \<open>normalize\<close> (the source's
  \<^verbatim>\<open>re.sub(r'\s+', ' ', text).strip()\<close>) returns the maximal runs of non-whitespace
  characters of its argument joined by single spaces: every run of whitespace between
  two of them has become one space, and the whitespace before the first and after the
  last is gone. It is a total function, it leaves those runs as they were, and applying
  it twice is the same as applying it once.
\<close>

theorem normalize_collapses_trims_idempotent:
  "normalize s = normalize_spec s
   \<and> tokens (normalize s) = tokens s
   \<and> normalize (normalize s) = normalize s"
proof (intro conjI)
  show "normalize s = normalize_spec s"
    by (rule normalize_eq_spec)
  show "tokens (normalize s) = tokens s"
    by (simp only: normalize_eq_spec tokens_normalize_spec)
  show "normalize (normalize s) = normalize s"
    by (rule normalize_idem)
qed

theorem normalize_collapses_trims_idempotent_witness:
  "normalize (ascii '' a  b '') = normalize_spec (ascii '' a  b '')
   \<and> tokens (normalize (ascii '' a  b '')) = tokens (ascii '' a  b '')
   \<and> normalize (normalize (ascii '' a  b '')) = normalize (ascii '' a  b '')"
  by (rule normalize_collapses_trims_idempotent)

section \<open>The handler's paths\<close>

lemma call_ai_service_eq:
  "call_ai_service E p w =
     ((case generation_call E p of StatusOK c \<Rightarrow> Some c | StatusNotOK \<Rightarrow> None | Raises \<Rightarrow> None),
      w\<lparr>calls := calls w @ [p]\<rparr>)"
  by (simp add: call_ai_service_def Let_def split: generation.split)

lemma analyze_miss_eq:
  "analyze_miss L E resume_text jd_text cache_key w =
     (let info = extracted_info_of L (fst (call_ai_service E (extract_prompt resume_text) w));
          mr = (if jd_text \<noteq> []
                then match_result_of L (fst (call_ai_service E (match_prompt resume_text jd_text) w))
                else PDict []);
          resp = PDict [(ascii ''resume_text_preview'', PStr (take 200 resume_text)),
                        (ascii ''extracted_info'', info),
                        (ascii ''match_result'', mr)];
          w2 = w\<lparr>calls := calls w @ (if jd_text \<noteq> []
                                       then [extract_prompt resume_text, match_prompt resume_text jd_text]
                                       else [extract_prompt resume_text])\<rparr>
      in case r_client w of
           None \<Rightarrow> (Inr (Response 200 resp), w2)
         | Some r \<Rightarrow>
             if setex_reachable E
             then (Inr (Response 200 resp),
                   w2\<lparr>r_client := Some (r(cache_key \<mapsto> (json_dumps L resp, now E + 3600)))\<rparr>)
             else (Inl ConnectionError, w2))"
  by (simp add: analyze_miss_def call_ai_service_eq redis_setex_def Let_def split: option.split)

lemma analyze_resume_miss:
  assumes "files_resume req = Some file"
    and "extract_text_from_pdf file = Inr resume_text"
    and "jd_text = (case form_jd_text req of None \<Rightarrow> [] | Some t \<Rightarrow> t)"
    and "get_cache_key L resume_text jd_text = Inr cache_key"
    and "cache_misses E w cache_key"
  shows "analyze_resume L E req w = analyze_miss L E resume_text jd_text cache_key w"
  using assms
  by (auto simp: analyze_resume_def cache_misses_def redis_get_def Let_def split: option.splits)

lemma analyze_resume_hit:
  assumes "files_resume req = Some file"
    and "extract_text_from_pdf file = Inr resume_text"
    and "jd_text = (case form_jd_text req of None \<Rightarrow> [] | Some t \<Rightarrow> t)"
    and "get_cache_key L resume_text jd_text = Inr cache_key"
    and "r_client w = Some r" and "get_reachable E"
    and "r cache_key = Some (d, expiry)"
    and "now E < expiry" and "d \<noteq> []" and "json_loads L d = Inr v"
  shows "analyze_resume L E req w = (Inr (Response 200 v), w)"
  using assms
  by (simp add: analyze_resume_def redis_get_def Let_def)


lemma analyze_resume_cases:
  assumes "files_resume req = Some file"
    and "extract_text_from_pdf file = Inr resume_text"
    and "jd_text = (case form_jd_text req of None \<Rightarrow> [] | Some t \<Rightarrow> t)"
  shows "snd (analyze_resume L E req w) = w
         \<or> (\<exists>cache_key. get_cache_key L resume_text jd_text = Inr cache_key
               \<and> analyze_resume L E req w
                   = analyze_miss L E resume_text jd_text cache_key w)"
  using assms
  by (auto simp: analyze_resume_def Let_def split: option.splits sum.splits)

lemma analyze_miss_stores:
  assumes "analyze_miss L E resume_text jd_text cache_key w = (Inr (Response 200 v), w1)"
    and "r_client w = Some r"
  shows "r_client w1 = Some (r(cache_key \<mapsto> (json_dumps L v, now E + 3600)))"
  using assms
  by (auto simp: analyze_miss_eq Let_def split: if_splits)

lemma sample_request_text:
  "extract_text_from_pdf (Inr [Page (Inr (Some (ascii ''John  Doe'')))]) = Inr (ascii ''John Doe'')"
  by (simp add: extract_text_from_pdf_def normalize_def strip_def lstrip_def rstrip_def
        ascii_def is_space_def)

lemma sample_first_run:
  "analyze_resume sample_lib sample_env sample_request \<lparr>r_client = Some Map.empty, calls = []\<rparr>
     = (Inr (Response 200 sample_response),
        \<lparr>r_client = Some [ascii ''John Doe'' \<mapsto> (sample_response_json, 3700)],
         calls = [extract_prompt (ascii ''John Doe'')]\<rparr>)"
proof -
  have miss: "cache_misses sample_env \<lparr>r_client = Some Map.empty, calls = []\<rparr>
                (ascii ''John Doe'')"
    by (simp add: cache_misses_def sample_env_def)
  have "analyze_resume sample_lib sample_env sample_request \<lparr>r_client = Some Map.empty, calls = []\<rparr>
        = analyze_miss sample_lib sample_env (ascii ''John Doe'') []
            (ascii ''John Doe'') \<lparr>r_client = Some Map.empty, calls = []\<rparr>"
    by (rule analyze_resume_miss [OF _ sample_request_text _ get_cache_key_sample(1) miss])
       (simp_all add: sample_request_def)
  also have "\<dots> = (Inr (Response 200 sample_response),
        \<lparr>r_client = Some [ascii ''John Doe'' \<mapsto> (sample_response_json, 3700)],
         calls = [extract_prompt (ascii ''John Doe'')]\<rparr>)"
    by (simp add: analyze_miss_eq call_ai_service_eq sample_env_def sample_lib_def
          extracted_info_of_def clean_json_str_def sample_response_def ascii_def)
  finally show ?thesis .
qed

section \<open>Cache hits\<close>

text \<open>
  Claim C2. Take a request with an uploaded, readable document, while the cache is
  configured. If the server answers and holds under the request's key a value that has
  not expired and that \<^verbatim>\<open>json.loads\<close> reads as \<open>v\<close>, the handler answers 200 with \<open>v\<close> and
  leaves the world as it was: no prompt is sent to the completion service. So when a
  first request was answered by the model with \<open>v1\<close> (it sent prompts), the same request
  again less than 3600 seconds later, with the server answering, is answered \<open>v1\<close> and
  sends no prompt, whatever the completion service would do then;
  \<^verbatim>\<open>json.loads(json.dumps(v1))\<close> is \<open>v1\<close> and \<^verbatim>\<open>json.dumps\<close> never returns the empty string in
  Python, which the model takes as hypotheses on its library parameter.
\<close>

theorem cache_hit_returns_stored_without_calls:
  assumes up: "files_resume req = Some file"
    and parsed: "extract_text_from_pdf file = Inr resume_text"
    and jd: "jd_text = (case form_jd_text req of None \<Rightarrow> [] | Some t \<Rightarrow> t)"
    and key: "get_cache_key L resume_text jd_text = Inr cache_key"
    and client: "r_client w = Some r"
  shows
    "(get_reachable E \<and> r cache_key = Some (d, expiry) \<and> now E < expiry \<and> d \<noteq> []
        \<and> json_loads L d = Inr v
      \<longrightarrow> analyze_resume L E req w = (Inr (Response 200 v), w))
     \<and> (analyze_resume L E req w = (Inr (Response 200 v1), w1) \<and> calls w1 \<noteq> calls w
          \<and> get_reachable E2 \<and> now E \<le> now E2 \<and> now E2 < now E + 3600
          \<and> json_dumps L v1 \<noteq> [] \<and> json_loads L (json_dumps L v1) = Inr v1
        \<longrightarrow> analyze_resume L E2 req w1 = (Inr (Response 200 v1), w1))"
proof (intro conjI impI)
  assume "get_reachable E \<and> r cache_key = Some (d, expiry) \<and> now E < expiry \<and> d \<noteq> []
            \<and> json_loads L d = Inr v"
  then show "analyze_resume L E req w = (Inr (Response 200 v), w)"
    using analyze_resume_hit [OF up parsed jd key client, of E d expiry v] by simp
next
  assume a: "analyze_resume L E req w = (Inr (Response 200 v1), w1) \<and> calls w1 \<noteq> calls w
          \<and> get_reachable E2 \<and> now E \<le> now E2 \<and> now E2 < now E + 3600
          \<and> json_dumps L v1 \<noteq> [] \<and> json_loads L (json_dumps L v1) = Inr v1"
  then have "snd (analyze_resume L E req w) \<noteq> w" by auto
  with analyze_resume_cases [OF up parsed jd, of L E w]
  have miss: "analyze_miss L E resume_text jd_text cache_key w = (Inr (Response 200 v1), w1)"
    using a key by auto
  have stored: "r_client w1 = Some (r(cache_key \<mapsto> (json_dumps L v1, now E + 3600)))"
    by (rule analyze_miss_stores [OF miss client])
  show "analyze_resume L E2 req w1 = (Inr (Response 200 v1), w1)"
    by (rule analyze_resume_hit [OF up parsed jd key stored, where d = "json_dumps L v1"
          and expiry = "now E + 3600"])
       (use a in simp_all)
qed


theorem cache_hit_returns_stored_without_calls_witness:
  "analyze_resume sample_lib sample_env sample_request
     \<lparr>r_client = Some [ascii ''John Doe'' \<mapsto> (sample_response_json, 200)], calls = []\<rparr>
   = (Inr (Response 200 sample_response),
      \<lparr>r_client = Some [ascii ''John Doe'' \<mapsto> (sample_response_json, 200)], calls = []\<rparr>)
   \<and> analyze_resume sample_lib (sample_env\<lparr>now := 3699\<rparr>) sample_request
       \<lparr>r_client = Some [ascii ''John Doe'' \<mapsto> (sample_response_json, 3700)],
        calls = [extract_prompt (ascii ''John Doe'')]\<rparr>
     = (Inr (Response 200 sample_response),
        \<lparr>r_client = Some [ascii ''John Doe'' \<mapsto> (sample_response_json, 3700)],
         calls = [extract_prompt (ascii ''John Doe'')]\<rparr>)"
proof -
  have up: "files_resume sample_request = Some (Inr [Page (Inr (Some (ascii ''John  Doe'')))])"
    by (simp add: sample_request_def)
  have jd: "[] = (case form_jd_text sample_request of None \<Rightarrow> [] | Some t \<Rightarrow> t)"
    by (simp add: sample_request_def)
  note key = get_cache_key_sample(1)
  have json: "sample_response_json \<noteq> []"
    "json_loads sample_lib sample_response_json = Inr sample_response"
    "json_dumps sample_lib sample_response = sample_response_json"
    by (simp_all add: sample_lib_def sample_response_json_def ascii_def)
  have first:
    "r_client \<lparr>r_client = Some [ascii ''John Doe'' \<mapsto> (sample_response_json, 200)], calls = []\<rparr>
       = Some [ascii ''John Doe'' \<mapsto> (sample_response_json, 200)]"
    by simp
  have second: "r_client \<lparr>r_client = Some Map.empty, calls = []\<rparr> = Some Map.empty"
    by simp
  from cache_hit_returns_stored_without_calls [OF up sample_request_text jd key first,
      where E = sample_env and d = sample_response_json and expiry = 200
        and v = sample_response, THEN conjunct1]
  have one: "analyze_resume sample_lib sample_env sample_request
     \<lparr>r_client = Some [ascii ''John Doe'' \<mapsto> (sample_response_json, 200)], calls = []\<rparr>
   = (Inr (Response 200 sample_response),
      \<lparr>r_client = Some [ascii ''John Doe'' \<mapsto> (sample_response_json, 200)], calls = []\<rparr>)"
    using json by (simp add: sample_env_def)
  from cache_hit_returns_stored_without_calls [OF up sample_request_text jd key second,
      where E = sample_env and ?v1.0 = sample_response
        and ?w1.0 = "\<lparr>r_client = Some [ascii ''John Doe'' \<mapsto> (sample_response_json, 3700)],
                       calls = [extract_prompt (ascii ''John Doe'')]\<rparr>"
        and ?E2.0 = "sample_env\<lparr>now := 3699\<rparr>", THEN conjunct2]
  have two: "analyze_resume sample_lib (sample_env\<lparr>now := 3699\<rparr>) sample_request
       \<lparr>r_client = Some [ascii ''John Doe'' \<mapsto> (sample_response_json, 3700)],
        calls = [extract_prompt (ascii ''John Doe'')]\<rparr>
     = (Inr (Response 200 sample_response),
        \<lparr>r_client = Some [ascii ''John Doe'' \<mapsto> (sample_response_json, 3700)],
         calls = [extract_prompt (ascii ''John Doe'')]\<rparr>)"
    using json sample_first_run by (simp add: sample_env_def)
  from one two show ?thesis ..
qed



section \<open>An unreachable cache\<close>

text \<open>
  Claim C3. With \<^verbatim>\<open>REDIS_HOST\<close> set, \<open>r_client\<close> is a client whether or not the server
  answers, and lines 89-92 and 147-148 send their commands outside any \<^verbatim>\<open>try\<close>. The
  document \<open>John  Doe\<close> with no job description: when the server does not answer the
  \<^verbatim>\<open>GET\<close>, the handler raises \<^verbatim>\<open>ConnectionError\<close> before any prompt is sent; when it
  answers the \<^verbatim>\<open>GET\<close> (a miss) but not the \<^verbatim>\<open>SETEX\<close>, the handler raises after the
  extraction prompt was sent. Neither request completes.
\<close>

theorem unreachable_cache_fails_request:
  "analyze_resume sample_lib (sample_env\<lparr>get_reachable := False\<rparr>) sample_request
     \<lparr>r_client = init_r_client (ascii ''redis.internal'') Map.empty, calls = []\<rparr>
     = (Inl ConnectionError, \<lparr>r_client = Some Map.empty, calls = []\<rparr>)
   \<and> analyze_resume sample_lib (sample_env\<lparr>setex_reachable := False\<rparr>) sample_request
       \<lparr>r_client = init_r_client (ascii ''redis.internal'') Map.empty, calls = []\<rparr>
     = (Inl ConnectionError,
        \<lparr>r_client = Some Map.empty, calls = [extract_prompt (ascii ''John Doe'')]\<rparr>)"
proof -
  have client: "init_r_client (ascii ''redis.internal'') Map.empty = Some Map.empty"
    by (simp add: init_r_client_def ascii_def)
  have one: "analyze_resume sample_lib (sample_env\<lparr>get_reachable := False\<rparr>) sample_request
       \<lparr>r_client = Some Map.empty, calls = []\<rparr>
     = (Inl ConnectionError, \<lparr>r_client = Some Map.empty, calls = []\<rparr>)"
    by (simp add: analyze_resume_def sample_request_def sample_request_text redis_get_def
          sample_env_def get_cache_key_sample)
  have "analyze_resume sample_lib (sample_env\<lparr>setex_reachable := False\<rparr>) sample_request
       \<lparr>r_client = Some Map.empty, calls = []\<rparr>
     = analyze_miss sample_lib (sample_env\<lparr>setex_reachable := False\<rparr>) (ascii ''John Doe'') []
         (ascii ''John Doe'') \<lparr>r_client = Some Map.empty, calls = []\<rparr>"
    by (simp add: analyze_resume_def sample_request_def sample_request_text redis_get_def
          sample_env_def get_cache_key_sample)
  also have "\<dots> = (Inl ConnectionError,
        \<lparr>r_client = Some Map.empty, calls = [extract_prompt (ascii ''John Doe'')]\<rparr>)"
    by (simp add: analyze_miss_eq sample_env_def)
  finally show ?thesis
    using one by (simp add: client)
qed

section \<open>The model-assisted path\<close>

lemma extracted_info_of_unparsable:
  assumes "\<forall>clean. clean_json_str s = Inr clean \<longrightarrow> isl (json_loads L clean)"
  shows "extracted_info_of L s =
         PDict [(ascii ''raw_text'', (case s of None \<Rightarrow> PNone | Some t \<Rightarrow> PStr t))]"
  using assms
  by (auto simp: extracted_info_of_def split: sum.splits)

lemma match_result_of_unparsable:
  assumes "\<forall>clean. clean_json_str s = Inr clean \<longrightarrow> isl (json_loads L clean)"
  shows "match_result_of L s =
         PDict [(ascii ''score'', PInt 0), (ascii ''analysis'', PStr (ascii ''AI Parsing Error''))]"
  using assms
  by (auto simp: match_result_of_def split: sum.splits)

lemma analyze_resume_miss_fst:
  assumes "files_resume req = Some file"
    and "extract_text_from_pdf file = Inr resume_text"
    and "jd_text = (case form_jd_text req of None \<Rightarrow> [] | Some t \<Rightarrow> t)"
    and "get_cache_key L resume_text jd_text = Inr cache_key"
    and "cache_misses E w cache_key"
  shows "fst (analyze_resume L E req w) =
     Inr (Response 200
       (PDict [(ascii ''resume_text_preview'', PStr (take 200 resume_text)),
               (ascii ''extracted_info'',
                extracted_info_of L (fst (call_ai_service E (extract_prompt resume_text) w))),
               (ascii ''match_result'',
                if jd_text \<noteq> []
                then match_result_of L
                       (fst (call_ai_service E (match_prompt resume_text jd_text) w))
                else PDict [])]))"
  using assms(5)
  by (simp add: analyze_resume_miss [OF assms] analyze_miss_eq Let_def cache_misses_def
        split: option.splits)

lemma analyze_resume_miss_calls:
  assumes "files_resume req = Some file"
    and "extract_text_from_pdf file = Inr resume_text"
    and "jd_text = (case form_jd_text req of None \<Rightarrow> [] | Some t \<Rightarrow> t)"
    and "get_cache_key L resume_text jd_text = Inr cache_key"
    and "cache_misses E w cache_key"
  shows "calls (snd (analyze_resume L E req w)) =
           calls w @ (if jd_text = [] then [extract_prompt resume_text]
                      else [extract_prompt resume_text, match_prompt resume_text jd_text])"
  using assms(5)
  by (simp add: analyze_resume_miss [OF assms] analyze_miss_eq Let_def cache_misses_def
        split: option.splits)

lemma analyze_resume_miss_store:
  assumes "files_resume req = Some file"
    and "extract_text_from_pdf file = Inr resume_text"
    and "jd_text = (case form_jd_text req of None \<Rightarrow> [] | Some t \<Rightarrow> t)"
    and "get_cache_key L resume_text jd_text = Inr cache_key"
    and "cache_misses E w cache_key"
    and "fst (analyze_resume L E req w) = Inr (Response 200 v)"
  shows "r_client (snd (analyze_resume L E req w)) =
           (case r_client w of
              None \<Rightarrow> None
            | Some r \<Rightarrow> Some (r(cache_key \<mapsto> (json_dumps L v, now E + 3600))))"
  using assms(5,6)
  by (auto simp: analyze_resume_miss [OF assms(1-5)] analyze_miss_eq Let_def cache_misses_def
        split: option.splits)

lemma prompts_differ: "extract_prompt t \<noteq> match_prompt t' j"
  by (simp add: extract_prompt_def match_prompt_def extract_prompt_head_def
        match_prompt_head_def)


lemma call_ai_service_failed:
  "generation_call E p = StatusNotOK \<or> generation_call E p = Raises \<Longrightarrow>
   fst (call_ai_service E p w) = None"
  by (auto simp: call_ai_service_eq)

lemma clean_json_str_None: "clean_json_str None = Inl AttributeError"
  by (simp add: clean_json_str_def)

lemma clean_json_str_hello:
  "clean_json_str (Some (ascii ''hello'')) = Inr (ascii ''hello'')"
  by (simp add: clean_json_str_def ascii_def replace.simps)

text \<open>
  When the document was read, the key derived, and the cache neither answers nor fails,
  the handler answers 200 with the preview and the values of the two \<^verbatim>\<open>try\<close> blocks,
  whatever the model returned; the blocks give their fallbacks for every output that
  cannot be cleaned or parsed.
\<close>

lemma unparsable_output_fallback_when_cache_works:
  assumes up: "files_resume req = Some file"
    and parsed: "extract_text_from_pdf file = Inr resume_text"
    and jd: "jd_text = (case form_jd_text req of None \<Rightarrow> [] | Some t \<Rightarrow> t)"
    and key: "get_cache_key L resume_text jd_text = Inr cache_key"
    and miss: "cache_misses E w cache_key"
    and s1: "extracted_info_str = fst (call_ai_service E (extract_prompt resume_text) w)"
    and s2: "match_res_str = fst (call_ai_service E (match_prompt resume_text jd_text) w)"
  shows
    "((\<forall>clean. clean_json_str raw = Inr clean \<longrightarrow> isl (json_loads L clean)) \<longrightarrow>
        extracted_info_of L raw =
          PDict [(ascii ''raw_text'', (case raw of None \<Rightarrow> PNone | Some t \<Rightarrow> PStr t))]
        \<and> match_result_of L raw =
          PDict [(ascii ''score'', PInt 0),
                 (ascii ''analysis'', PStr (ascii ''AI Parsing Error''))])
     \<and> fst (analyze_resume L E req w) =
         Inr (Response 200
           (PDict [(ascii ''resume_text_preview'', PStr (take 200 resume_text)),
                   (ascii ''extracted_info'', extracted_info_of L extracted_info_str),
                   (ascii ''match_result'',
                    if jd_text \<noteq> [] then match_result_of L match_res_str else PDict [])]))"
proof (intro conjI impI)
  assume u: "\<forall>clean. clean_json_str raw = Inr clean \<longrightarrow> isl (json_loads L clean)"
  show "extracted_info_of L raw =
          PDict [(ascii ''raw_text'', (case raw of None \<Rightarrow> PNone | Some t \<Rightarrow> PStr t))]"
    by (rule extracted_info_of_unparsable [OF u])
  show "match_result_of L raw =
          PDict [(ascii ''score'', PInt 0),
                 (ascii ''analysis'', PStr (ascii ''AI Parsing Error''))]"
    by (rule match_result_of_unparsable [OF u])
next
  show "fst (analyze_resume L E req w) =
         Inr (Response 200
           (PDict [(ascii ''resume_text_preview'', PStr (take 200 resume_text)),
                   (ascii ''extracted_info'', extracted_info_of L extracted_info_str),
                   (ascii ''match_result'',
                    if jd_text \<noteq> [] then match_result_of L match_res_str else PDict [])]))"
    unfolding s1 s2 by (rule analyze_resume_miss_fst [OF up parsed jd key miss])
qed

text \<open>
  Under the same conditions the handler answers 200 whatever the completion service
  does, sends each prompt once, and a failed call leaves its field at the fallback.
\<close>

lemma failed_completion_fallback_when_cache_works:
  assumes up: "files_resume req = Some file"
    and parsed: "extract_text_from_pdf file = Inr resume_text"
    and jd: "jd_text = (case form_jd_text req of None \<Rightarrow> [] | Some t \<Rightarrow> t)"
    and key: "get_cache_key L resume_text jd_text = Inr cache_key"
    and miss: "cache_misses E w cache_key"
    and p1: "p1 = extract_prompt resume_text"
    and p2: "p2 = match_prompt resume_text jd_text"
  shows
    "fst (analyze_resume L E req w) =
       Inr (Response 200
         (PDict [(ascii ''resume_text_preview'', PStr (take 200 resume_text)),
                 (ascii ''extracted_info'', extracted_info_of L (fst (call_ai_service E p1 w))),
                 (ascii ''match_result'',
                  if jd_text \<noteq> [] then match_result_of L (fst (call_ai_service E p2 w))
                  else PDict [])]))
     \<and> (generation_call E p1 = StatusNotOK \<or> generation_call E p1 = Raises \<longrightarrow>
          extracted_info_of L (fst (call_ai_service E p1 w))
            = PDict [(ascii ''raw_text'', PNone)])
     \<and> (generation_call E p2 = StatusNotOK \<or> generation_call E p2 = Raises \<longrightarrow>
          match_result_of L (fst (call_ai_service E p2 w))
            = PDict [(ascii ''score'', PInt 0),
                     (ascii ''analysis'', PStr (ascii ''AI Parsing Error''))])
     \<and> calls (snd (analyze_resume L E req w))
         = calls w @ (if jd_text = [] then [p1] else [p1, p2])
     \<and> p1 \<noteq> p2"
proof (intro conjI impI)
  show "fst (analyze_resume L E req w) =
       Inr (Response 200
         (PDict [(ascii ''resume_text_preview'', PStr (take 200 resume_text)),
                 (ascii ''extracted_info'', extracted_info_of L (fst (call_ai_service E p1 w))),
                 (ascii ''match_result'',
                  if jd_text \<noteq> [] then match_result_of L (fst (call_ai_service E p2 w))
                  else PDict [])]))"
    unfolding p1 p2 by (rule analyze_resume_miss_fst [OF up parsed jd key miss])
next
  assume "generation_call E p1 = StatusNotOK \<or> generation_call E p1 = Raises"
  then have "fst (call_ai_service E p1 w) = None"
    by (rule call_ai_service_failed)
  then show "extracted_info_of L (fst (call_ai_service E p1 w))
            = PDict [(ascii ''raw_text'', PNone)]"
    by (simp add: extracted_info_of_unparsable clean_json_str_None)
next
  assume "generation_call E p2 = StatusNotOK \<or> generation_call E p2 = Raises"
  then have "fst (call_ai_service E p2 w) = None"
    by (rule call_ai_service_failed)
  then show "match_result_of L (fst (call_ai_service E p2 w))
            = PDict [(ascii ''score'', PInt 0),
                     (ascii ''analysis'', PStr (ascii ''AI Parsing Error''))]"
    by (simp add: match_result_of_unparsable clean_json_str_None)
next
  show "calls (snd (analyze_resume L E req w))
         = calls w @ (if jd_text = [] then [p1] else [p1, p2])"
    unfolding p1 p2 by (rule analyze_resume_miss_calls [OF up parsed jd key miss])
next
  show "p1 \<noteq> p2"
    unfolding p1 p2 by (rule prompts_differ)
qed

text \<open>
  Claim C4. The two \<^verbatim>\<open>try\<close> blocks do turn the unparsable output \<open>hello\<close> into their
  fallbacks, but the request does not complete when the cache is configured and the
  server does not answer the \<^verbatim>\<open>SETEX\<close> of line 148: both prompts were sent, both
  outputs were replaced by the fallbacks, and the handler raises \<^verbatim>\<open>ConnectionError\<close>
  where the claim has the request complete.
\<close>

theorem unparsable_output_request_fails_at_cache_write:
  "extracted_info_of sample_lib (Some (ascii ''hello''))
     = PDict [(ascii ''raw_text'', PStr (ascii ''hello''))]
   \<and> match_result_of sample_lib (Some (ascii ''hello''))
     = PDict [(ascii ''score'', PInt 0), (ascii ''analysis'', PStr (ascii ''AI Parsing Error''))]
   \<and> analyze_resume sample_lib
       (sample_env\<lparr>generation_call := (\<lambda>prompt. StatusOK (ascii ''hello'')),
                   setex_reachable := False\<rparr>)
       sample_request_jd
       \<lparr>r_client = init_r_client (ascii ''redis.internal'') Map.empty, calls = []\<rparr>
     = (Inl ConnectionError,
        \<lparr>r_client = Some Map.empty,
         calls = [extract_prompt (ascii ''John Doe''),
                  match_prompt (ascii ''John Doe'') (ascii ''Go'')]\<rparr>)"
proof -
  let ?E = "sample_env\<lparr>generation_call := (\<lambda>prompt. StatusOK (ascii ''hello'')),
                        setex_reachable := False\<rparr>"
  let ?w = "\<lparr>r_client = Some Map.empty, calls = []\<rparr>"
  have bad: "\<forall>clean. clean_json_str (Some (ascii ''hello'')) = Inr clean
               \<longrightarrow> isl (json_loads sample_lib clean)"
  proof (intro allI impI)
    fix clean
    assume "clean_json_str (Some (ascii ''hello'')) = Inr clean"
    then have "clean = ascii ''hello''"
      by (simp add: clean_json_str_hello)
    then show "isl (json_loads sample_lib clean)"
      by (simp add: sample_lib_def sample_response_json_def ascii_def)
  qed
  have a: "extracted_info_of sample_lib (Some (ascii ''hello''))
             = PDict [(ascii ''raw_text'', PStr (ascii ''hello''))]"
    using extracted_info_of_unparsable [OF bad] by simp
  have b: "match_result_of sample_lib (Some (ascii ''hello''))
     = PDict [(ascii ''score'', PInt 0), (ascii ''analysis'', PStr (ascii ''AI Parsing Error''))]"
    by (rule match_result_of_unparsable [OF bad])
  have client: "init_r_client (ascii ''redis.internal'') Map.empty = Some Map.empty"
    by (simp add: init_r_client_def ascii_def)
  have go: "ascii ''Go'' \<noteq> []"
    by (simp add: ascii_def)
  have "analyze_resume sample_lib ?E sample_request_jd ?w
        = analyze_miss sample_lib ?E (ascii ''John Doe'') (ascii ''Go'')
            (ascii ''John DoeGo'') ?w"
    by (simp add: analyze_resume_def sample_request_jd_def sample_request_text redis_get_def
          sample_env_def get_cache_key_sample)
  also have "\<dots> = (Inl ConnectionError,
        \<lparr>r_client = Some Map.empty,
         calls = [extract_prompt (ascii ''John Doe''),
                  match_prompt (ascii ''John Doe'') (ascii ''Go'')]\<rparr>)"
    using go by (simp add: analyze_miss_eq sample_env_def)
  finally show ?thesis
    using a b by (simp add: client)
qed

text \<open>
  Claim C7. The completion service answers every prompt with a status other than OK.
  Each prompt is sent once and \<open>call_ai_service\<close> returns \<^verbatim>\<open>None\<close>, but with the cache
  configured and the server not answering the \<^verbatim>\<open>SETEX\<close> of line 148 the handler raises
  \<^verbatim>\<open>ConnectionError\<close> where the claim has the request complete with a full response.
\<close>

theorem failed_completion_request_fails_at_cache_write:
  "generation_call (sample_env\<lparr>setex_reachable := False\<rparr>) (extract_prompt (ascii ''John Doe''))
     = StatusNotOK
   \<and> analyze_resume sample_lib (sample_env\<lparr>setex_reachable := False\<rparr>) sample_request_jd
       \<lparr>r_client = init_r_client (ascii ''redis.internal'') Map.empty, calls = []\<rparr>
     = (Inl ConnectionError,
        \<lparr>r_client = Some Map.empty,
         calls = [extract_prompt (ascii ''John Doe''),
                  match_prompt (ascii ''John Doe'') (ascii ''Go'')]\<rparr>)"
proof -
  let ?E = "sample_env\<lparr>setex_reachable := False\<rparr>"
  let ?w = "\<lparr>r_client = Some Map.empty, calls = []\<rparr>"
  have client: "init_r_client (ascii ''redis.internal'') Map.empty = Some Map.empty"
    by (simp add: init_r_client_def ascii_def)
  have go: "ascii ''Go'' \<noteq> []"
    by (simp add: ascii_def)
  have "analyze_resume sample_lib ?E sample_request_jd ?w
        = analyze_miss sample_lib ?E (ascii ''John Doe'') (ascii ''Go'')
            (ascii ''John DoeGo'') ?w"
    by (simp add: analyze_resume_def sample_request_jd_def sample_request_text redis_get_def
          sample_env_def get_cache_key_sample)
  also have "\<dots> = (Inl ConnectionError,
        \<lparr>r_client = Some Map.empty,
         calls = [extract_prompt (ascii ''John Doe''),
                  match_prompt (ascii ''John Doe'') (ascii ''Go'')]\<rparr>)"
    using go by (simp add: analyze_miss_eq sample_env_def)
  finally show ?thesis
    by (simp add: client sample_env_def)
qed


section \<open>Prompts and their truncation\<close>

lemma analyze_resume_calls:
  assumes "jd_text = (case form_jd_text req of None \<Rightarrow> [] | Some t \<Rightarrow> t)"
  shows "calls (snd (analyze_resume L E req w)) = calls w
         \<or> (\<exists>file resume_text.
               files_resume req = Some file \<and> extract_text_from_pdf file = Inr resume_text
               \<and> calls (snd (analyze_resume L E req w))
                   = calls w @ (if jd_text = [] then [extract_prompt resume_text]
                                else [extract_prompt resume_text,
                                      match_prompt resume_text jd_text]))"
  using assms
  by (auto simp: analyze_resume_def analyze_miss_eq Let_def
        split: option.splits sum.splits)

lemma length_extract_prompt:
  "length (extract_prompt resume_text) = 225 + min (length resume_text) 2500"
  by (simp add: extract_prompt_def extract_prompt_head_def extract_prompt_tail_def)

lemma length_match_prompt:
  "length (match_prompt resume_text jd_text)
     = 188 + min (length resume_text) 2000 + min (length jd_text) 1000"
  by (simp add: match_prompt_def match_prompt_head_def match_prompt_mid_def
        match_prompt_tail_def)

text \<open>
  Claim C8. The extraction prompt is the same for a document and for its first 2500
  characters, and is at most 2500 characters longer than the prompt of the empty
  document; the matching prompt is the same for a document and job description and for
  the first 2000 and the first 1000 characters of them, and at most 3000 characters
  longer than the prompt of two empty texts. Every prompt a request adds to the trace is
  the fixed text of lines 95-106 around the first 2500 characters of the normalised
  document, or the fixed text of lines 121-131 around its first 2000 characters and the
  first 1000 characters of the job description.
\<close>

theorem prompts_embed_bounded_prefixes:
  assumes jd: "jd_text = (case form_jd_text req of None \<Rightarrow> [] | Some t \<Rightarrow> t)"
  shows
    "extract_prompt doc = extract_prompt (take 2500 doc)
     \<and> length (extract_prompt doc) \<le> length (extract_prompt []) + 2500
     \<and> match_prompt doc job = match_prompt (take 2000 doc) (take 1000 job)
     \<and> length (match_prompt doc job) \<le> length (match_prompt [] []) + 2000 + 1000
     \<and> (\<forall>p\<in>set (calls (snd (analyze_resume L E req w))).
          p \<in> set (calls w)
          \<or> (\<exists>file resume_text.
                files_resume req = Some file \<and> extract_text_from_pdf file = Inr resume_text
                \<and> (p = extract_prompt_head @ take 2500 resume_text @ extract_prompt_tail
                     \<or> p = match_prompt_head @ take 2000 resume_text @ match_prompt_mid
                           @ take 1000 jd_text @ match_prompt_tail)))"
proof (intro conjI ballI)
  show "extract_prompt doc = extract_prompt (take 2500 doc)"
    by (simp add: extract_prompt_def)
  show "length (extract_prompt doc) \<le> length (extract_prompt []) + 2500"
    by (simp add: length_extract_prompt)
  show "match_prompt doc job = match_prompt (take 2000 doc) (take 1000 job)"
    by (simp add: match_prompt_def)
  show "length (match_prompt doc job) \<le> length (match_prompt [] []) + 2000 + 1000"
    by (simp add: length_match_prompt)
next
  fix p
  assume p: "p \<in> set (calls (snd (analyze_resume L E req w)))"
  from analyze_resume_calls [OF jd, of L E w] p
  show "p \<in> set (calls w)
          \<or> (\<exists>file resume_text.
                files_resume req = Some file \<and> extract_text_from_pdf file = Inr resume_text
                \<and> (p = extract_prompt_head @ take 2500 resume_text @ extract_prompt_tail
                     \<or> p = match_prompt_head @ take 2000 resume_text @ match_prompt_mid
                           @ take 1000 jd_text @ match_prompt_tail))"
    by (auto simp: extract_prompt_def match_prompt_def split: if_splits)
qed

theorem prompts_embed_bounded_prefixes_witness:
  "extract_prompt (replicate 3000 97) = extract_prompt (replicate 2500 97)
   \<and> length (extract_prompt (replicate 3000 97)) \<le> 2725
   \<and> match_prompt (replicate 3000 97) (replicate 1500 98)
       = match_prompt (replicate 2000 97) (replicate 1000 98)
   \<and> length (match_prompt (replicate 3000 97) (replicate 1500 98)) \<le> 3188"
proof -
  have jd: "ascii ''Go'' = (case form_jd_text sample_request_jd of None \<Rightarrow> [] | Some t \<Rightarrow> t)"
    by (simp add: sample_request_jd_def)
  have len: "length (extract_prompt []) = 225" "length (match_prompt [] []) = 188"
    by (simp_all add: length_extract_prompt length_match_prompt)
  note inst = prompts_embed_bounded_prefixes [OF jd, where doc = "replicate 3000 97"
      and job = "replicate 1500 98" and L = sample_lib and E = sample_env
      and w = "\<lparr>r_client = None, calls = []\<rparr>"]
  from inst have "extract_prompt (replicate 3000 97)
                  = extract_prompt (take 2500 (replicate 3000 97))"
    by (rule conjunct1)
  then have a: "extract_prompt (replicate 3000 97) = extract_prompt (replicate 2500 97)"
    by simp
  from inst have "length (extract_prompt (replicate 3000 97))
                  \<le> length (extract_prompt []) + 2500"
    by blast
  then have b: "length (extract_prompt (replicate 3000 97)) \<le> 2725"
    by (simp only: len)
  from inst have "match_prompt (replicate 3000 97) (replicate 1500 98)
                  = match_prompt (take 2000 (replicate 3000 97)) (take 1000 (replicate 1500 98))"
    by blast
  then have c: "match_prompt (replicate 3000 97) (replicate 1500 98)
                = match_prompt (replicate 2000 97) (replicate 1000 98)"
    by simp
  from inst have "length (match_prompt (replicate 3000 97) (replicate 1500 98))
                  \<le> length (match_prompt [] []) + 2000 + 1000"
    by blast
  then have d: "length (match_prompt (replicate 3000 97) (replicate 1500 98)) \<le> 3188"
    by (simp only: len)
  from a b c d show ?thesis by blast
qed


section \<open>Requests without a job description\<close>

text \<open>
  Claim C9, as stated, fails on a request that the cache answers: the document
  \<open>John  Doe\<close> with no job description, while the cache holds a live value under the
  request's key, is answered from the cache and no prompt is sent at all, where the
  claim has exactly one completion call for every request with an empty job description.
\<close>

theorem cache_hit_with_empty_jd_sends_no_prompt:
  "form_jd_text sample_request = None
   \<and> analyze_resume sample_lib sample_env sample_request
       \<lparr>r_client = Some [ascii ''John Doe'' \<mapsto> (sample_response_json, 200)], calls = []\<rparr>
     = (Inr (Response 200 sample_response),
        \<lparr>r_client = Some [ascii ''John Doe'' \<mapsto> (sample_response_json, 200)],
         calls = []\<rparr>)"
proof -
  have "analyze_resume sample_lib sample_env sample_request
       \<lparr>r_client = Some [ascii ''John Doe'' \<mapsto> (sample_response_json, 200)], calls = []\<rparr>
     = (Inr (Response 200 sample_response),
        \<lparr>r_client = Some [ascii ''John Doe'' \<mapsto> (sample_response_json, 200)],
         calls = []\<rparr>)"
    by (rule analyze_resume_hit [OF _ sample_request_text _ get_cache_key_sample(1),
          where d = sample_response_json and expiry = 200
          and r = "[ascii ''John Doe'' \<mapsto> (sample_response_json, 200)]"])
       (simp_all add: sample_request_def sample_env_def sample_lib_def
          sample_response_json_def ascii_def)
  then show ?thesis
    by (simp add: sample_request_def)
qed

text \<open>
  Claim C9, amended. When the job description is empty, the document was read, its key
  was derived, and the cache neither answers nor fails, exactly one prompt is sent, the
  extraction prompt, and \<open>match_result\<close> in the 200 response is the empty dict. Any
  request with an empty job description sends no prompt or that one prompt. On any
  request, a matching prompt is among the prompts sent only when the job description is
  not empty.
\<close>

theorem empty_job_description_one_call:
  assumes jd: "jd_text = (case form_jd_text req of None \<Rightarrow> [] | Some t \<Rightarrow> t)"
    and new: "new_calls = drop (length (calls w)) (calls (snd (analyze_resume L E req w)))"
  shows
    "calls (snd (analyze_resume L E req w)) = calls w @ new_calls
     \<and> (jd_text = [] \<and> files_resume req = Some upload
          \<and> extract_text_from_pdf upload = Inr resume_text
          \<and> get_cache_key L resume_text jd_text = Inr cache_key
          \<and> cache_misses E w cache_key \<longrightarrow>
        new_calls = [extract_prompt resume_text]
        \<and> fst (analyze_resume L E req w) =
            Inr (Response 200
              (PDict [(ascii ''resume_text_preview'', PStr (take 200 resume_text)),
                      (ascii ''extracted_info'',
                       extracted_info_of L
                         (fst (call_ai_service E (extract_prompt resume_text) w))),
                      (ascii ''match_result'', PDict [])])))
     \<and> (jd_text = [] \<longrightarrow>
          new_calls = []
          \<or> (\<exists>upload resume_text.
                files_resume req = Some upload \<and> extract_text_from_pdf upload = Inr resume_text
                \<and> new_calls = [extract_prompt resume_text]))
     \<and> ((\<exists>t j. match_prompt t j \<in> set new_calls) \<longrightarrow> jd_text \<noteq> [])"
proof -
  from analyze_resume_calls [OF jd, of L E w]
  have shape: "new_calls = []
     \<or> (\<exists>upload resume_text.
           files_resume req = Some upload \<and> extract_text_from_pdf upload = Inr resume_text
           \<and> new_calls = (if jd_text = [] then [extract_prompt resume_text]
                           else [extract_prompt resume_text, match_prompt resume_text jd_text]))"
    unfolding new by auto
  from analyze_resume_calls [OF jd, of L E w]
  have app: "calls (snd (analyze_resume L E req w)) = calls w @ new_calls"
    unfolding new by auto
  have one: "new_calls = [extract_prompt resume_text]
        \<and> fst (analyze_resume L E req w) =
            Inr (Response 200
              (PDict [(ascii ''resume_text_preview'', PStr (take 200 resume_text)),
                      (ascii ''extracted_info'',
                       extracted_info_of L
                         (fst (call_ai_service E (extract_prompt resume_text) w))),
                      (ascii ''match_result'', PDict [])]))"
    if h: "jd_text = [] \<and> files_resume req = Some upload
          \<and> extract_text_from_pdf upload = Inr resume_text
          \<and> get_cache_key L resume_text jd_text = Inr cache_key
          \<and> cache_misses E w cache_key"
  proof -
    from h have up: "files_resume req = Some upload"
      and parsed: "extract_text_from_pdf upload = Inr resume_text"
      and key: "get_cache_key L resume_text jd_text = Inr cache_key"
      and miss: "cache_misses E w cache_key"
      and e: "jd_text = []"
      by blast+
    have "new_calls = [extract_prompt resume_text]"
      unfolding new using analyze_resume_miss_calls [OF up parsed jd key miss] e by simp
    moreover have "fst (analyze_resume L E req w) =
            Inr (Response 200
              (PDict [(ascii ''resume_text_preview'', PStr (take 200 resume_text)),
                      (ascii ''extracted_info'',
                       extracted_info_of L
                         (fst (call_ai_service E (extract_prompt resume_text) w))),
                      (ascii ''match_result'', PDict [])]))"
      using analyze_resume_miss_fst [OF up parsed jd key miss] e by simp
    ultimately show ?thesis ..
  qed
  have two: "new_calls = []
          \<or> (\<exists>upload resume_text.
                files_resume req = Some upload \<and> extract_text_from_pdf upload = Inr resume_text
                \<and> new_calls = [extract_prompt resume_text])"
    if "jd_text = []"
    using shape that by auto
  have three: "jd_text \<noteq> []" if m: "\<exists>t j. match_prompt t j \<in> set new_calls"
  proof
    assume "jd_text = []"
    with shape have "new_calls = [] \<or> (\<exists>resume_text. new_calls = [extract_prompt resume_text])"
      by auto
    with m show False
      by (auto simp: prompts_differ [symmetric])
  qed
  from app one two three show ?thesis
    by blast
qed

theorem empty_job_description_one_call_witness:
  "calls (snd (analyze_resume sample_lib sample_env sample_request
                 \<lparr>r_client = None, calls = []\<rparr>))
     = [extract_prompt (ascii ''John Doe'')]
   \<and> fst (analyze_resume sample_lib sample_env sample_request \<lparr>r_client = None, calls = []\<rparr>)
     = Inr (Response 200
         (PDict [(ascii ''resume_text_preview'', PStr (ascii ''John Doe'')),
                 (ascii ''extracted_info'', PDict [(ascii ''raw_text'', PNone)]),
                 (ascii ''match_result'', PDict [])]))"
proof -
  let ?w = "\<lparr>r_client = None, calls = []\<rparr>"
  let ?new = "drop (length (calls ?w))
                (calls (snd (analyze_resume sample_lib sample_env sample_request ?w)))"
  have up: "files_resume sample_request = Some (Inr [Page (Inr (Some (ascii ''John  Doe'')))])"
    and jd: "[] = (case form_jd_text sample_request of None \<Rightarrow> [] | Some t \<Rightarrow> t)"
    by (simp_all add: sample_request_def)
  have miss: "cache_misses sample_env ?w (ascii ''John Doe'')"
    by (simp add: cache_misses_def)
  have info: "extracted_info_of sample_lib
                (fst (call_ai_service sample_env (extract_prompt (ascii ''John Doe'')) ?w))
              = PDict [(ascii ''raw_text'', PNone)]"
    by (simp add: call_ai_service_eq sample_env_def extracted_info_of_def clean_json_str_def)
  have pre: "take 200 (ascii ''John Doe'') = ascii ''John Doe''"
    by (simp add: ascii_def)
  note inst = empty_job_description_one_call [OF jd refl, where L = sample_lib
      and E = sample_env and w = ?w
      and upload = "Inr [Page (Inr (Some (ascii ''John  Doe'')))]"
      and resume_text = "ascii ''John Doe''" and cache_key = "ascii ''John Doe''"]
  from inst have app: "calls (snd (analyze_resume sample_lib sample_env sample_request ?w))
                       = calls ?w @ ?new"
    by (rule conjunct1)
  from inst up sample_request_text get_cache_key_sample(1) miss
  have "?new = [extract_prompt (ascii ''John Doe'')]
        \<and> fst (analyze_resume sample_lib sample_env sample_request ?w) =
            Inr (Response 200
              (PDict [(ascii ''resume_text_preview'', PStr (take 200 (ascii ''John Doe''))),
                      (ascii ''extracted_info'',
                       extracted_info_of sample_lib
                         (fst (call_ai_service sample_env
                                 (extract_prompt (ascii ''John Doe'')) ?w))),
                      (ascii ''match_result'', PDict [])]))"
    by blast
  with app show ?thesis
    by (simp only: info pre) simp
qed

section \<open>Documents without text\<close>

lemma page_loop_blank:
  assumes "\<forall>p\<in>set pages. extract_text p = Inr None
             \<or> (\<exists>t. extract_text p = Inr (Some t) \<and> (\<forall>c\<in>set t. is_space c))"
  shows "\<exists>t. page_loop pages acc = Inr (acc @ t) \<and> (\<forall>c\<in>set t. is_space c)"
  using assms
proof (induction pages arbitrary: acc)
  case Nil
  then show ?case by simp
next
  case (Cons p ps)
  from Cons.prems have rest: "\<forall>p\<in>set ps. extract_text p = Inr None
             \<or> (\<exists>t. extract_text p = Inr (Some t) \<and> (\<forall>c\<in>set t. is_space c))"
    by simp
  from Cons.prems consider "extract_text p = Inr None"
    | t where "extract_text p = Inr (Some t)" "\<forall>c\<in>set t. is_space c"
    by auto
  then show ?case
  proof cases
    case 1
    with Cons.IH [OF rest, of acc] show ?thesis by simp
  next
    case 2
    show ?thesis
    proof (cases "t = []")
      case True
      with 2 Cons.IH [OF rest, of acc] show ?thesis by simp
    next
      case False
      from Cons.IH [OF rest, of "acc @ t @ [10]"]
      obtain u where u: "page_loop ps (acc @ t @ [10]) = Inr ((acc @ t @ [10]) @ u)"
        "\<forall>c\<in>set u. is_space c"
        by blast
      have "is_space 10" by (simp add: is_space_def)
      with 2 u False show ?thesis
        by (intro exI [of _ "t @ [10] @ u"]) auto
    qed
  qed
qed

lemma normalize_blank: "\<forall>c\<in>set s. is_space c \<Longrightarrow> normalize s = []"
proof -
  assume "\<forall>c\<in>set s. is_space c"
  then have dw: "dropWhile is_space s = []" by simp
  have "tokens s = []" by (subst tokens.simps) (simp only: dw list.case)
  then show ?thesis by (simp add: normalize_eq_spec normalize_spec_def)
qed

lemma extract_text_blank:
  assumes "\<forall>p\<in>set pages. extract_text p = Inr None
             \<or> (\<exists>t. extract_text p = Inr (Some t) \<and> (\<forall>c\<in>set t. is_space c))"
  shows "extract_text_from_pdf (Inr pages) = Inr []"
proof -
  from page_loop_blank [OF assms, of "[]"]
  obtain t where "page_loop pages [] = Inr t" "\<forall>c\<in>set t. is_space c"
    by auto
  then show ?thesis
    by (simp add: extract_text_from_pdf_def normalize_blank)
qed

lemma analyze_resume_parsed_not_500:
  assumes "files_resume req = Some file"
    and "extract_text_from_pdf file = Inr resume_text"
  shows "fst (analyze_resume L E req w) \<noteq> Inr (Response 500 b)"
  using assms
  by (auto simp: analyze_resume_def analyze_miss_eq Let_def
        split: option.splits sum.splits)

text \<open>
  When every page of a readable PDF yields \<^verbatim>\<open>None\<close>, the empty string or only whitespace,
  the extracted text is empty and the handler never answers with the 500 parse error;
  when moreover the job description can be encoded and the cache neither answers nor
  fails, the answer is 200 with an empty preview, and a configured cache receives the
  serialised response under the hash of the job description for 3600 seconds.
\<close>

lemma text_free_pdf_processed_when_cache_misses:
  assumes up: "files_resume req = Some (Inr pages)"
    and blank: "\<forall>p\<in>set pages. extract_text p = Inr None
                  \<or> (\<exists>t. extract_text p = Inr (Some t) \<and> (\<forall>c\<in>set t. is_space c))"
    and jd: "jd_text = (case form_jd_text req of None \<Rightarrow> [] | Some t \<Rightarrow> t)"
    and enc: "\<not> list_ex surrogate jd_text"
    and miss: "cache_misses E w (md5_hexdigest L jd_text)"
    and resp: "response_data =
               PDict [(ascii ''resume_text_preview'', PStr []),
                      (ascii ''extracted_info'',
                       extracted_info_of L (fst (call_ai_service E (extract_prompt []) w))),
                      (ascii ''match_result'',
                       if jd_text \<noteq> []
                       then match_result_of L
                              (fst (call_ai_service E (match_prompt [] jd_text) w))
                       else PDict [])]"
  shows "extract_text_from_pdf (Inr pages) = Inr []"
    and "get_cache_key L [] jd_text = Inr (md5_hexdigest L jd_text)"
    and "fst (analyze_resume L E req w) = Inr (Response 200 response_data)"
    and "r_client (snd (analyze_resume L E req w)) =
           (case r_client w of
              None \<Rightarrow> None
            | Some r \<Rightarrow>
                Some (r(md5_hexdigest L jd_text \<mapsto> (json_dumps L response_data, now E + 3600))))"
proof -
  show parsed: "extract_text_from_pdf (Inr pages) = Inr []"
    by (rule extract_text_blank [OF blank])
  show key: "get_cache_key L [] jd_text = Inr (md5_hexdigest L jd_text)"
    using enc by (simp add: get_cache_key_def)
  show res: "fst (analyze_resume L E req w) = Inr (Response 200 response_data)"
    unfolding resp using analyze_resume_miss_fst [OF up parsed jd key miss] by simp
  show "r_client (snd (analyze_resume L E req w)) =
           (case r_client w of
              None \<Rightarrow> None
            | Some r \<Rightarrow>
                Some (r(md5_hexdigest L jd_text \<mapsto> (json_dumps L response_data, now E + 3600))))"
    by (rule analyze_resume_miss_store [OF up parsed jd key miss res])
qed

text \<open>
  Claim C10. For a PDF whose pages yield no text the extraction does return the empty
  string. But the request fails when the cache is configured and the server does not
  answer the \<^verbatim>\<open>GET\<close> of line 90; and when the cache holds the response of the document
  \<open>John Doe\<close> with no job description, the text-free PDF with the job description
  \<open>John Doe\<close> has the same key and is answered with that response, whose preview is
  \<open>John Doe\<close>, where the claim has a success with an empty preview.
\<close>

theorem text_free_pdf_request_fails_or_previews_other_document:
  "extract_text_from_pdf (Inr [Page (Inr None), Page (Inr (Some []))]) = Inr []
   \<and> analyze_resume sample_lib (sample_env\<lparr>get_reachable := False\<rparr>)
       \<lparr>files_resume = Some (Inr [Page (Inr None), Page (Inr (Some []))]),
        form_jd_text = Some (ascii ''John Doe'')\<rparr>
       \<lparr>r_client = init_r_client (ascii ''redis.internal'') Map.empty, calls = []\<rparr>
     = (Inl ConnectionError, \<lparr>r_client = Some Map.empty, calls = []\<rparr>)
   \<and> analyze_resume sample_lib (sample_env\<lparr>now := 200\<rparr>)
       \<lparr>files_resume = Some (Inr [Page (Inr None), Page (Inr (Some []))]),
        form_jd_text = Some (ascii ''John Doe'')\<rparr>
       \<lparr>r_client = Some [ascii ''John Doe'' \<mapsto> (sample_response_json, 3700)],
        calls = [extract_prompt (ascii ''John Doe'')]\<rparr>
     = (Inr (Response 200
          (PDict [(ascii ''resume_text_preview'', PStr (ascii ''John Doe'')),
                  (ascii ''extracted_info'', PDict [(ascii ''raw_text'', PNone)]),
                  (ascii ''match_result'', PDict [])])),
        \<lparr>r_client = Some [ascii ''John Doe'' \<mapsto> (sample_response_json, 3700)],
         calls = [extract_prompt (ascii ''John Doe'')]\<rparr>)"
proof -
  let ?pages = "[Page (Inr None), Page (Inr (Some []))]"
  let ?req = "\<lparr>files_resume = Some (Inr ?pages), form_jd_text = Some (ascii ''John Doe'')\<rparr>"
  let ?w1 = "\<lparr>r_client = Some [ascii ''John Doe'' \<mapsto> (sample_response_json, 3700)],
              calls = [extract_prompt (ascii ''John Doe'')]\<rparr>"
  have parsed: "extract_text_from_pdf (Inr ?pages) = Inr []"
    by (rule extract_text_blank) simp
  have client: "init_r_client (ascii ''redis.internal'') Map.empty = Some Map.empty"
    by (simp add: init_r_client_def ascii_def)
  have down: "analyze_resume sample_lib (sample_env\<lparr>get_reachable := False\<rparr>) ?req
                \<lparr>r_client = Some Map.empty, calls = []\<rparr>
              = (Inl ConnectionError, \<lparr>r_client = Some Map.empty, calls = []\<rparr>)"
    by (simp add: analyze_resume_def parsed redis_get_def sample_env_def
          get_cache_key_sample)
  have "analyze_resume sample_lib (sample_env\<lparr>now := 200\<rparr>) ?req ?w1
        = (Inr (Response 200 sample_response), ?w1)"
    by (rule analyze_resume_hit [OF _ parsed _ get_cache_key_sample(4),
          where d = sample_response_json and expiry = 3700
          and r = "[ascii ''John Doe'' \<mapsto> (sample_response_json, 3700)]"])
       (simp_all add: sample_env_def sample_lib_def sample_response_json_def ascii_def)
  then have other: "analyze_resume sample_lib (sample_env\<lparr>now := 200\<rparr>) ?req ?w1
        = (Inr (Response 200
          (PDict [(ascii ''resume_text_preview'', PStr (ascii ''John Doe'')),
                  (ascii ''extracted_info'', PDict [(ascii ''raw_text'', PNone)]),
                  (ascii ''match_result'', PDict [])])), ?w1)"
    by (simp only: sample_response_def)
  from parsed down other show ?thesis
    by (simp only: client)
qed


section \<open>Cleaning and parsing the model's output\<close>

lemma replace_Nil: "old \<noteq> [] \<Longrightarrow> replace old new [] = []"
  by (subst replace.simps) simp

lemma replace_Cons:
  "old \<noteq> [] \<Longrightarrow>
   replace old new (c # cs) =
     (if prefix old (c # cs) then new @ replace old new (drop (length old) (c # cs))
      else c # replace old new cs)"
  by (subst replace.simps) simp

lemma replace_no_prefix:
  "old \<noteq> [] \<Longrightarrow> \<not> prefix old (c # cs) \<Longrightarrow>
   replace old new (c # cs) = c # replace old new cs"
  by (subst replace.simps) simp

lemma replace_prefix:
  "old \<noteq> [] \<Longrightarrow> prefix old s \<Longrightarrow>
   replace old new s = new @ replace old new (drop (length old) s)"
  by (subst replace.simps) (auto split: list.split)

lemma replace_absent:
  "old \<noteq> [] \<Longrightarrow> \<not> sublist old s \<Longrightarrow> replace old new s = s"
proof (induction s)
  case Nil
  then show ?case by (simp add: replace_Nil)
next
  case (Cons c cs)
  from Cons.prems(2) have "\<not> prefix old (c # cs)" and "\<not> sublist old cs"
    by (auto simp: sublist_Cons_right)
  with Cons show ?case by (simp add: replace_Cons)
qed

lemma prefix_fence_iff:
  "prefix [96, 96, 96] s \<longleftrightarrow> 3 \<le> length (takeWhile (\<lambda>x. x = (96::nat)) s)"
proof (cases s)
  case Nil
  then show ?thesis by simp
next
  case s1: (Cons a as)
  show ?thesis
  proof (cases as)
    case Nil
    with s1 show ?thesis by simp
  next
    case s2: (Cons b bs)
    show ?thesis
    proof (cases bs)
      case Nil
      with s1 s2 show ?thesis by simp
    next
      case (Cons c cs)
      with s1 s2 show ?thesis by auto
    qed
  qed
qed

lemma replace_fence_inv:
  "\<not> sublist [96, 96, 96] (replace [96, 96, 96] [] s)
   \<and> (length (takeWhile (\<lambda>x. x = (96::nat)) s) < 3 \<longrightarrow>
        length (takeWhile (\<lambda>x. x = 96) (replace [96, 96, 96] [] s))
          = length (takeWhile (\<lambda>x. x = 96) s))"
proof (induction s rule: length_induct)
  case (1 s)
  show ?case
  proof (cases s)
    case Nil
    then show ?thesis by (simp add: replace_Nil)
  next
    case (Cons c cs)
    show ?thesis
    proof (cases "prefix [96, 96, 96] s")
      case True
      then have r: "replace [96, 96, 96] [] s = replace [96, 96, 96] [] (drop 3 s)"
        using replace_prefix [of "[96, 96, 96]" s "[]"] by (simp add: numeral_3_eq_3)
      have "length (drop 3 s) < length s"
        using Cons by simp
      with 1 have "\<not> sublist [96, 96, 96] (replace [96, 96, 96] [] (drop 3 s))"
        by blast
      moreover from True have "\<not> length (takeWhile (\<lambda>x. x = (96::nat)) s) < 3"
        by (simp add: prefix_fence_iff)
      ultimately show ?thesis
        by (simp add: r)
    next
      case False
      then have r: "replace [96, 96, 96] [] s = c # replace [96, 96, 96] [] cs"
        unfolding Cons by (intro replace_no_prefix) simp_all
      have "length cs < length s"
        using Cons by simp
      with 1 have IH: "\<not> sublist [96, 96, 96] (replace [96, 96, 96] [] cs)"
        "length (takeWhile (\<lambda>x. x = (96::nat)) cs) < 3 \<Longrightarrow>
           length (takeWhile (\<lambda>x. x = 96) (replace [96, 96, 96] [] cs))
             = length (takeWhile (\<lambda>x. x = 96) cs)"
        by blast+
      from False have small: "length (takeWhile (\<lambda>x. x = (96::nat)) s) < 3"
        by (simp add: prefix_fence_iff)
      show ?thesis
      proof (cases "c = 96")
        case True
        with small Cons have cs: "length (takeWhile (\<lambda>x. x = (96::nat)) cs) < 2"
          by simp
        then have eq: "length (takeWhile (\<lambda>x. x = 96) (replace [96, 96, 96] [] cs))
             = length (takeWhile (\<lambda>x. x = 96) cs)"
          using IH(2) by simp
        have "\<not> prefix [96, 96, 96] (c # replace [96, 96, 96] [] cs)"
          unfolding prefix_fence_iff using True cs eq by simp
        with IH(1) have "\<not> sublist [96, 96, 96] (c # replace [96, 96, 96] [] cs)"
          by (simp add: sublist_Cons_right)
        then show ?thesis
          using True eq Cons r by simp
      next
        case False
        then have "\<not> prefix [96, 96, 96] (c # replace [96, 96, 96] [] cs)"
          by simp
        with IH(1) have "\<not> sublist [96, 96, 96] (c # replace [96, 96, 96] [] cs)"
          by (simp add: sublist_Cons_right)
        then show ?thesis
          using False Cons r by simp
      qed
    qed
  qed
qed

lemma fence_in_fence_json:
  "sublist (ascii ''```json'') s \<Longrightarrow> sublist (ascii ''```'') s"
proof -
  assume "sublist (ascii ''```json'') s"
  moreover have "sublist (ascii ''```'') (ascii ''```json'')"
    by (rule prefix_imp_sublist) (simp add: ascii_def)
  ultimately show ?thesis
    by (rule sublist_order.order.trans [rotated])
qed

lemma clean_json_str_Some:
  "clean_json_str (Some raw)
     = Inr (replace (ascii ''```'') [] (replace (ascii ''```json'') [] raw))"
  by (simp add: clean_json_str_def)

lemma clean_json_str_no_fence:
  "clean_json_str (Some raw) = Inr clean \<Longrightarrow> \<not> sublist (ascii ''```'') clean"
  using replace_fence_inv [of "replace (ascii ''```json'') [] raw"]
  by (auto simp: clean_json_str_Some ascii_def)

lemma clean_json_str_unfenced:
  assumes "\<not> sublist (ascii ''```'') raw"
  shows "clean_json_str (Some raw) = Inr raw"
proof -
  have "ascii ''```json'' \<noteq> []" "ascii ''```'' \<noteq> []"
    by (simp_all add: ascii_def)
  moreover from assms have "\<not> sublist (ascii ''```json'') raw"
    using fence_in_fence_json by blast
  ultimately show ?thesis
    using assms by (simp add: clean_json_str_Some replace_absent)
qed

lemma replace_first_occurrence:
  assumes "old \<noteq> []" and "\<not> sublist old (pre @ butlast old)"
  shows "replace old new (pre @ old @ rest) = pre @ new @ replace old new rest"
  using assms(2)
proof (induction pre)
  case Nil
  have "prefix old (old @ rest)"
    by simp
  from replace_prefix [OF assms(1) this, of new] show ?case
    by simp
next
  case (Cons c p)
  have split: "(c # p) @ old @ rest = ((c # p) @ butlast old) @ (last old # rest)"
    using assms(1) by (simp add: append_butlast_last_id [symmetric] del: append_butlast_last_id)
  have no_prefix: "\<not> prefix old ((c # p) @ old @ rest)"
  proof
    assume "prefix old ((c # p) @ old @ rest)"
    then have "prefix old (((c # p) @ butlast old) @ (last old # rest))"
      by (simp only: split)
    moreover have "prefix ((c # p) @ butlast old) (((c # p) @ butlast old) @ (last old # rest))"
      by simp
    moreover have "length old \<le> length ((c # p) @ butlast old)"
      by simp
    ultimately have "prefix old ((c # p) @ butlast old)"
      by (rule prefix_length_prefix)
    then have "sublist old ((c # p) @ butlast old)"
      by (rule prefix_imp_sublist)
    with Cons.prems show False ..
  qed
  from Cons.prems have "\<not> sublist old (p @ butlast old)"
    by (auto simp: sublist_Cons_right)
  then have "replace old new (p @ old @ rest) = p @ new @ replace old new rest"
    by (rule Cons.IH)
  moreover have "replace old new ((c # p) @ old @ rest)
                 = c # replace old new (p @ old @ rest)"
    using replace_no_prefix [OF assms(1), of c "p @ old @ rest" new] no_prefix by simp
  ultimately show ?case
    by simp
qed

text \<open>
  Claim C5, as stated, fails twice. A marker inside a JSON string is removed with the
  rest: the output \<^verbatim>\<open>{"name": "a```b"}\<close> reaches the parser as \<^verbatim>\<open>{"name": "ab"}\<close>. And
  no schema is checked: the output \<^verbatim>\<open>42\<close> is valid JSON that is neither an ExtractedInfo
  nor a MatchResult record, and both call sites return the number 42, not their
  fallback.
\<close>

theorem fence_in_string_removed_and_any_json_returned:
  "clean_json_str (Some (ascii ''{\"name\": \"a```b\"}'')) = Inr (ascii ''{\"name\": \"ab\"}'')
   \<and> extracted_info_of sample_lib (Some (ascii ''42'')) = PInt 42
   \<and> match_result_of sample_lib (Some (ascii ''42'')) = PInt 42"
  by (simp add: clean_json_str_def extracted_info_of_def match_result_of_def sample_lib_def
        sample_response_json_def ascii_def replace.simps)


text \<open>
  Claim C5, amended. The text handed to \<^verbatim>\<open>json.loads\<close> is the output after
  \<^verbatim>\<open>replace("```json", "")\<close> and then \<^verbatim>\<open>replace("```", "")\<close>, where \<open>replace\<close> works from
  the left without overlap, wherever the marker stands: a text without the marker is
  left as it is, and in a text with the marker the part before its first occurrence is
  kept, the occurrence is dropped, and the rest is treated the same way. No \<^verbatim>\<open>```\<close> is
  left in the cleaned text, and an output without \<^verbatim>\<open>```\<close> is handed over unaltered. Each
  call site returns what \<^verbatim>\<open>json.loads\<close> returns exactly when it accepts that text (any
  JSON value, no schema), and its fallback when it rejects it.
\<close>

theorem fences_removed_then_any_json_returned:
  "\<exists>clean. clean_json_str (Some raw) = Inr clean
     \<and> clean = replace (ascii ''```'') [] (replace (ascii ''```json'') [] raw)
     \<and> (old \<noteq> [] \<and> \<not> sublist old s \<longrightarrow> replace old new s = s)
     \<and> (old \<noteq> [] \<and> \<not> sublist old (pre @ butlast old) \<longrightarrow>
          replace old new (pre @ old @ rest) = pre @ new @ replace old new rest)
     \<and> \<not> sublist (ascii ''```'') clean
     \<and> (\<not> sublist (ascii ''```'') raw \<longrightarrow> clean = raw)
     \<and> (\<forall>v. json_loads L clean = Inr v \<longrightarrow>
            extracted_info_of L (Some raw) = v \<and> match_result_of L (Some raw) = v)
     \<and> (\<forall>e. json_loads L clean = Inl e \<longrightarrow>
            extracted_info_of L (Some raw) = PDict [(ascii ''raw_text'', PStr raw)]
            \<and> match_result_of L (Some raw) =
                PDict [(ascii ''score'', PInt 0),
                       (ascii ''analysis'', PStr (ascii ''AI Parsing Error''))])"
proof -
  define clean where "clean = replace (ascii ''```'') [] (replace (ascii ''```json'') [] raw)"
  have c: "clean_json_str (Some raw) = Inr clean"
    by (simp add: clean_json_str_Some clean_def)
  have "\<not> sublist (ascii ''```'') clean"
    by (rule clean_json_str_no_fence [OF c])
  moreover have "\<not> sublist (ascii ''```'') raw \<longrightarrow> clean = raw"
    using c clean_json_str_unfenced [of raw] by auto
  moreover have "\<forall>v. json_loads L clean = Inr v \<longrightarrow>
            extracted_info_of L (Some raw) = v \<and> match_result_of L (Some raw) = v"
    by (simp add: extracted_info_of_def match_result_of_def c)
  moreover have "\<forall>e. json_loads L clean = Inl e \<longrightarrow>
            extracted_info_of L (Some raw) = PDict [(ascii ''raw_text'', PStr raw)]
            \<and> match_result_of L (Some raw) =
                PDict [(ascii ''score'', PInt 0),
                       (ascii ''analysis'', PStr (ascii ''AI Parsing Error''))]"
    by (simp add: extracted_info_of_def match_result_of_def c)
  moreover have "old \<noteq> [] \<and> \<not> sublist old s \<longrightarrow> replace old new s = s"
    by (simp add: replace_absent)
  moreover have "old \<noteq> [] \<and> \<not> sublist old (pre @ butlast old) \<longrightarrow>
          replace old new (pre @ old @ rest) = pre @ new @ replace old new rest"
    by (simp add: replace_first_occurrence)
  ultimately show ?thesis
    using c clean_def by blast
qed

theorem fences_removed_then_any_json_returned_witness:
  "clean_json_str (Some (ascii ''```json{}```'')) = Inr (ascii ''{}'')
   \<and> extracted_info_of sample_lib (Some (ascii ''```json{}```'')) = PDict []
   \<and> match_result_of sample_lib (Some (ascii ''```json{}```'')) = PDict []
   \<and> replace (ascii ''```'') [] (ascii ''`a```'') = ascii ''`a''"
proof -
  have c: "clean_json_str (Some (ascii ''```json{}```'')) = Inr (ascii ''{}'')"
    by (simp add: clean_json_str_def ascii_def replace.simps)
  have j: "json_loads sample_lib (ascii ''{}'') = Inr (PDict [])"
    by (simp add: sample_lib_def sample_response_json_def ascii_def)
  have fence: "ascii ''```'' \<noteq> []" "butlast (ascii ''```'') = ascii ''``''"
    "\<not> sublist (ascii ''```'') (ascii ''`a'' @ ascii ''``'')"
    "ascii ''`a'' @ ascii ''```'' @ [] = ascii ''`a```''"
    by (simp_all add: ascii_def sublist_Cons_right)
  from fences_removed_then_any_json_returned [of "ascii ''```json{}```''" "ascii ''```''" _
      "[]" "ascii ''`a''" "[]" sample_lib]
  obtain clean where "clean_json_str (Some (ascii ''```json{}```'')) = Inr clean"
    and "\<forall>v. json_loads sample_lib clean = Inr v \<longrightarrow>
           extracted_info_of sample_lib (Some (ascii ''```json{}```'')) = v
           \<and> match_result_of sample_lib (Some (ascii ''```json{}```'')) = v"
    and law: "ascii ''```'' \<noteq> [] \<and> \<not> sublist (ascii ''```'') (ascii ''`a'' @ butlast (ascii ''```''))
          \<longrightarrow> replace (ascii ''```'') [] (ascii ''`a'' @ ascii ''```'' @ [])
              = ascii ''`a'' @ [] @ replace (ascii ''```'') [] []"
    by blast
  with c j have ab: "extracted_info_of sample_lib (Some (ascii ''```json{}```'')) = PDict []"
    "match_result_of sample_lib (Some (ascii ''```json{}```'')) = PDict []"
    by simp_all
  from law fence have "replace (ascii ''```'') [] (ascii ''`a```'') = ascii ''`a''"
    by (simp add: replace_Nil)
  with c ab show ?thesis
    by simp
qed

section \<open>What the two defects do to a request\<close>

text \<open>
  The ambiguity of the key (claim C1) reaches the caller. After a request that the model
  answered, a request for another document and job description with the same
  concatenation, made while the stored value is live, is answered with the first
  request's response and sends no prompt. In the example the first request is the
  document \<open>John  Doe\<close> with no job description, and the second the document \<open>John\<close> with
  the job description \<open> Doe\<close>: its answer previews \<open>John Doe\<close> and has an empty
  \<open>match_result\<close>.
\<close>

lemma cache_answers_request_with_same_concatenation:
  assumes up1: "files_resume req1 = Some file1"
    and parsed1: "extract_text_from_pdf file1 = Inr text1"
    and jd1: "jd1 = (case form_jd_text req1 of None \<Rightarrow> [] | Some t \<Rightarrow> t)"
    and up2: "files_resume req2 = Some file2"
    and parsed2: "extract_text_from_pdf file2 = Inr text2"
    and jd2: "jd2 = (case form_jd_text req2 of None \<Rightarrow> [] | Some t \<Rightarrow> t)"
    and same: "text1 @ jd1 = text2 @ jd2"
    and client: "r_client w = Some r"
    and first: "analyze_resume L E req1 w = (Inr (Response 200 v1), w1)"
    and computed: "calls w1 \<noteq> calls w"
    and later: "get_reachable E2" "now E \<le> now E2" "now E2 < now E + 3600"
    and json: "json_dumps L v1 \<noteq> []" "json_loads L (json_dumps L v1) = Inr v1"
  shows "analyze_resume L E2 req2 w1 = (Inr (Response 200 v1), w1)"
proof -
  have "snd (analyze_resume L E req1 w) \<noteq> w"
    using first computed by auto
  with analyze_resume_cases [OF up1 parsed1 jd1, of L E w]
  obtain cache_key where key1: "get_cache_key L text1 jd1 = Inr cache_key"
    and miss: "analyze_miss L E text1 jd1 cache_key w = (Inr (Response 200 v1), w1)"
    using first by auto
  have key2: "get_cache_key L text2 jd2 = Inr cache_key"
    using get_cache_key_concat [OF same, of L] key1 by simp
  have stored: "r_client w1 = Some (r(cache_key \<mapsto> (json_dumps L v1, now E + 3600)))"
    by (rule analyze_miss_stores [OF miss client])
  show ?thesis
    by (rule analyze_resume_hit [OF up2 parsed2 jd2 key2 stored, where d = "json_dumps L v1"
          and expiry = "now E + 3600"])
       (use later json in simp_all)
qed

lemma sample_split_request_text:
  "extract_text_from_pdf (Inr [Page (Inr (Some (ascii ''John'')))]) = Inr (ascii ''John'')"
  by (simp add: extract_text_from_pdf_def normalize_def strip_def lstrip_def rstrip_def
        ascii_def is_space_def)

lemma cache_answers_request_with_same_concatenation_example:
  "analyze_resume sample_lib (sample_env\<lparr>now := 200\<rparr>)
     \<lparr>files_resume = Some (Inr [Page (Inr (Some (ascii ''John'')))]),
      form_jd_text = Some (ascii '' Doe'')\<rparr>
     \<lparr>r_client = Some [ascii ''John Doe'' \<mapsto> (sample_response_json, 3700)],
      calls = [extract_prompt (ascii ''John Doe'')]\<rparr>
   = (Inr (Response 200 sample_response),
      \<lparr>r_client = Some [ascii ''John Doe'' \<mapsto> (sample_response_json, 3700)],
       calls = [extract_prompt (ascii ''John Doe'')]\<rparr>)"
proof -
  let ?req2 = "\<lparr>files_resume = Some (Inr [Page (Inr (Some (ascii ''John'')))]),
                form_jd_text = Some (ascii '' Doe'')\<rparr>"
  have up1: "files_resume sample_request = Some (Inr [Page (Inr (Some (ascii ''John  Doe'')))])"
    and jd1: "[] = (case form_jd_text sample_request of None \<Rightarrow> [] | Some t \<Rightarrow> t)"
    by (simp_all add: sample_request_def)
  have up2: "files_resume ?req2 = Some (Inr [Page (Inr (Some (ascii ''John'')))])"
    and jd2: "ascii '' Doe'' = (case form_jd_text ?req2 of None \<Rightarrow> [] | Some t \<Rightarrow> t)"
    by simp_all
  have same: "ascii ''John Doe'' @ [] = ascii ''John'' @ ascii '' Doe''"
    by (simp add: ascii_def)
  have client: "r_client \<lparr>r_client = Some Map.empty, calls = []\<rparr> = Some Map.empty"
    by simp
  have computed:
    "calls \<lparr>r_client = Some [ascii ''John Doe'' \<mapsto> (sample_response_json, 3700)],
            calls = [extract_prompt (ascii ''John Doe'')]\<rparr>
     \<noteq> calls \<lparr>r_client = Some Map.empty, calls = []\<rparr>"
    by simp
  have later: "get_reachable (sample_env\<lparr>now := 200\<rparr>)"
    "now sample_env \<le> now (sample_env\<lparr>now := 200\<rparr>)"
    "now (sample_env\<lparr>now := 200\<rparr>) < now sample_env + 3600"
    by (simp_all add: sample_env_def)
  have json: "json_dumps sample_lib sample_response \<noteq> []"
    "json_loads sample_lib (json_dumps sample_lib sample_response) = Inr sample_response"
    by (simp_all add: sample_lib_def sample_response_json_def ascii_def)
  show ?thesis
    by (rule cache_answers_request_with_same_concatenation
          [OF up1 sample_request_text jd1 up2 sample_split_request_text jd2 same client
              sample_first_run computed later json])
qed

text \<open>
  The cache fails a request only when it is configured (claim C3): with \<open>r_client\<close> equal
  to \<^verbatim>\<open>None\<close> the handler returns a response on every request whose key can be
  derived, and raises \<^verbatim>\<open>UnicodeEncodeError\<close> at line 88 on the others.
\<close>

lemma disabled_cache_never_raises:
  assumes "r_client w = None"
  shows "(\<exists>response. fst (analyze_resume L E req w) = Inr response)
         \<or> fst (analyze_resume L E req w) = Inl UnicodeEncodeError"
  using assms
  by (auto simp: analyze_resume_def analyze_miss_eq get_cache_key_def Let_def
        split: option.splits sum.splits if_splits)

lemma surrogate_text_raises:
  "analyze_resume L E
     \<lparr>files_resume = Some (Inr [Page (Inr (Some [97, 55296]))]), form_jd_text = None\<rparr> w
   = (Inl UnicodeEncodeError, w)"
  by (simp add: analyze_resume_def extract_text_from_pdf_def normalize_def strip_def
        lstrip_def rstrip_def is_space_def get_cache_key_def surrogate_def)



end
